theory Spec2Isabelle
  imports Complex_Main
begin

section \<open>Values of the host language\<close>

text \<open>
  The viewer is TypeScript. Its \<^verbatim>\<open>number\<close> is modelled as a real number or \<open>NaN\<close>:
  \<open>NaN\<close> is what arithmetic on \<^verbatim>\<open>undefined\<close> gives, and \<^verbatim>\<open>undefined\<close> is what a
  read outside an array gives (\<open>at_index\<close>). Products, differences and quotients
  of finite numbers are the exact ones: the rounding of doubles enters only
  where a statement takes the product as a parameter, and overflow and the
  infinities are not part of the model. The only quotients the modelled code
  forms have a divisor that is not zero. Every comparison with \<open>NaN\<close> is false.
\<close>

datatype number = Num real | NaN

fun num_mul :: "number \<Rightarrow> number \<Rightarrow> number" where
  "num_mul (Num a) (Num b) = Num (a * b)"
| "num_mul _ _ = NaN"

fun num_sub :: "number \<Rightarrow> number \<Rightarrow> number" where
  "num_sub (Num a) (Num b) = Num (a - b)"
| "num_sub _ _ = NaN"

fun num_add :: "number \<Rightarrow> number \<Rightarrow> number" where
  "num_add (Num a) (Num b) = Num (a + b)"
| "num_add _ _ = NaN"

fun num_div :: "number \<Rightarrow> number \<Rightarrow> number" where
  "num_div (Num a) (Num b) = Num (a / b)"
| "num_div _ _ = NaN"

fun num_le :: "number \<Rightarrow> number \<Rightarrow> bool" where
  "num_le (Num a) (Num b) = (a \<le> b)"
| "num_le _ _ = False"

fun num_lt :: "number \<Rightarrow> number \<Rightarrow> bool" where
  "num_lt (Num a) (Num b) = (a < b)"
| "num_lt _ _ = False"

fun num_gt :: "number \<Rightarrow> number \<Rightarrow> bool" where
  "num_gt (Num a) (Num b) = (a > b)"
| "num_gt _ _ = False"

definition at_index :: "number list \<Rightarrow> int \<Rightarrow> number" where
  "at_index xs i = (if 0 \<le> i \<and> i < int (length xs) then xs ! nat i else NaN)"

text \<open>
  \<^verbatim>\<open>Math.min(first, ...rest)\<close> and \<^verbatim>\<open>Math.max(first, ...rest)\<close> on at least one
  argument: \<open>NaN\<close> if any argument is \<open>NaN\<close>.
\<close>

fun num_min :: "number \<Rightarrow> number \<Rightarrow> number" where
  "num_min (Num a) (Num b) = Num (min a b)"
| "num_min _ _ = NaN"

fun num_max :: "number \<Rightarrow> number \<Rightarrow> number" where
  "num_max (Num a) (Num b) = Num (max a b)"
| "num_max _ _ = NaN"

definition Math_min :: "number \<Rightarrow> number list \<Rightarrow> number" where
  "Math_min first rest = foldl num_min first rest"

definition Math_max :: "number \<Rightarrow> number list \<Rightarrow> number" where
  "Math_max first rest = foldl num_max first rest"

text \<open>
  Identifiers and names are ASCII strings. \<^verbatim>\<open>toLowerCase\<close> maps \<open>A\<close>..\<open>Z\<close> to
  \<open>a\<close>..\<open>z\<close>; \<^verbatim>\<open>replace(/[^a-z0-9]/g, '-')\<close> rewrites every character outside the
  two ranges.
\<close>

definition toLowerCase_char :: "char \<Rightarrow> char" where
  "toLowerCase_char c =
     (let n = (of_char c :: nat)
      in if 65 \<le> n \<and> n \<le> 90 then char_of (n + 32) else c)"

definition toLowerCase :: "string \<Rightarrow> string" where
  "toLowerCase s = map toLowerCase_char s"

definition is_a_z_0_9 :: "char \<Rightarrow> bool" where
  "is_a_z_0_9 c =
     (let n = (of_char c :: nat)
      in (97 \<le> n \<and> n \<le> 122) \<or> (48 \<le> n \<and> n \<le> 57))"

definition replace_non_a_z_0_9 :: "string \<Rightarrow> string" where
  "replace_non_a_z_0_9 s = map (\<lambda>c. if is_a_z_0_9 c then c else CHR ''-'') s"

text \<open>
  The content of an annotation is free text. It is kept as the list of its
  UTF-16 code units, so that the test for blank content sees every character
  that \<^verbatim>\<open>trim\<close> removes: the white space and the line terminators of the language
  (tab to carriage return, space, no-break space, U+1680, U+2000 to U+200A,
  U+2028, U+2029, U+202F, U+205F, U+3000 and U+FEFF), each a single code unit.
  \<^verbatim>\<open>trim\<close> leaves nothing exactly when every code unit is one of them.
  \<open>code_units\<close> writes an ASCII literal as code units.
\<close>

type_synonym utf16 = "nat list"

definition code_units :: "string \<Rightarrow> utf16" where
  "code_units s = map of_char s"

definition is_white_space :: "nat \<Rightarrow> bool" where
  "is_white_space n =
     ((9 \<le> n \<and> n \<le> 13) \<or> n = 32 \<or> n = 160 \<or> n = 5760 \<or> (8192 \<le> n \<and> n \<le> 8202)
      \<or> n = 8232 \<or> n = 8233 \<or> n = 8239 \<or> n = 8287 \<or> n = 12288 \<or> n = 65279)"

definition trim_is_empty :: "utf16 \<Rightarrow> bool" where
  "trim_is_empty s = list_all is_white_space s"

text \<open>Decimal rendering of an integer, as a template string renders a whole number.\<close>

fun digits_of_nat :: "nat \<Rightarrow> string" where
  "digits_of_nat n =
     (if n < 10 then [char_of (48 + n)]
      else digits_of_nat (n div 10) @ [char_of (48 + n mod 10)])"

definition toString_int :: "int \<Rightarrow> string" where
  "toString_int i =
     (if i < 0 then CHR ''-'' # digits_of_nat (nat (- i)) else digits_of_nat (nat i))"

subsection \<open>Insertion-ordered containers\<close>

text \<open>
  A \<^verbatim>\<open>Map\<close> iterates in insertion order and \<^verbatim>\<open>set\<close> on a key already present
  replaces the value where the key stands. A \<^verbatim>\<open>Set\<close> is likewise a list without
  repetition.
\<close>

fun Map_set :: "'k \<Rightarrow> 'v \<Rightarrow> ('k \<times> 'v) list \<Rightarrow> ('k \<times> 'v) list" where
  "Map_set k v [] = [(k, v)]"
| "Map_set k v ((k', v') # m) = (if k' = k then (k, v) # m else (k', v') # Map_set k v m)"

definition Map_has :: "'k \<Rightarrow> ('k \<times> 'v) list \<Rightarrow> bool" where
  "Map_has k m = (k \<in> set (map fst m))"

definition Map_get :: "'k \<Rightarrow> ('k \<times> 'v) list \<Rightarrow> 'v option" where
  "Map_get k m = map_of m k"

definition Map_delete :: "'k \<Rightarrow> ('k \<times> 'v) list \<Rightarrow> ('k \<times> 'v) list" where
  "Map_delete k m = filter (\<lambda>e. fst e \<noteq> k) m"

definition Map_keys :: "('k \<times> 'v) list \<Rightarrow> 'k list" where
  "Map_keys m = map fst m"

definition Map_values :: "('k \<times> 'v) list \<Rightarrow> 'v list" where
  "Map_values m = map snd m"

definition Set_has :: "'k \<Rightarrow> 'k list \<Rightarrow> bool" where
  "Set_has k s = (k \<in> set s)"

definition Set_add :: "'k \<Rightarrow> 'k list \<Rightarrow> 'k list" where
  "Set_add k s = (if k \<in> set s then s else s @ [k])"

definition Set_delete :: "'k \<Rightarrow> 'k list \<Rightarrow> 'k list" where
  "Set_delete k s = filter (\<lambda>x. x \<noteq> k) s"

section \<open>Data model\<close>

text \<open>
  An annotation as the overlay file gives it. The optional metadata and JSON-LD
  fields play no part in what follows and are left out.
\<close>

record OverlayAnnotation =
  page :: string
  content :: utf16
  rect :: "number list"
  line :: int
  atype :: "string option"

record RenderRect =
  minX :: number
  maxX :: number
  minY :: number
  maxY :: number
  width :: number
  height :: number

record AnnotationRenderContext =
  ctx_annotation :: OverlayAnnotation
  ctx_effectiveDpi :: number
  ctx_pageNumber :: nat
  ctx_rect :: RenderRect

text \<open>
  A provider's \<^verbatim>\<open>render\<close> and \<^verbatim>\<open>canHandle\<close> are code supplied from outside. All the
  model keeps of a call of \<^verbatim>\<open>render\<close> is whether it returned or threw (a rejected
  promise is a throw at the \<^verbatim>\<open>await\<close>). A call of \<^verbatim>\<open>canHandle\<close> answers with a
  boolean, as its type says, or throws.
\<close>

datatype render_outcome = Returned | Threw string

datatype canHandle_outcome = Answered bool | CanHandleThrew string

record AnnotationProvider =
  p_id :: string
  p_name :: string
  p_description :: "string option"
  p_canHandle :: "OverlayAnnotation \<Rightarrow> canHandle_outcome"
  p_render :: "AnnotationRenderContext \<Rightarrow> render_outcome"

record AnnotationProviderOptions =
  o_id :: "string option"
  o_name :: string
  o_description :: "string option"
  o_canHandle :: "OverlayAnnotation \<Rightarrow> canHandle_outcome"
  o_render :: "AnnotationRenderContext \<Rightarrow> render_outcome"

text \<open>
  The message (the first argument) of each call of \<^verbatim>\<open>console.warn\<close> and
  \<^verbatim>\<open>console.error\<close>; \<^verbatim>\<open>console.log\<close> is not recorded.
\<close>

datatype console = ConsoleWarn string | ConsoleError string

section \<open>Provider registry\<close>

text \<open>
  The registry is the pair of module-level singletons \<^verbatim>\<open>globalAnnotationProviders\<close>
  (a map from id to provider) and \<^verbatim>\<open>globalActiveProviders\<close> (a set of ids, created
  holding \<^verbatim>\<open>'default'\<close>).
\<close>

record Registry =
  annotationProviders :: "(string \<times> AnnotationProvider) list"
  activeProviders :: "string list"

definition createDefaultProvider :: "(AnnotationRenderContext \<Rightarrow> render_outcome) \<Rightarrow> AnnotationProvider" where
  "createDefaultProvider r =
     \<lparr> p_id = ''default'', p_name = ''Default Text Renderer'',
       p_description = Some ''Built-in text rendering for annotations'',
       p_canHandle = (\<lambda>_. Answered True), p_render = r \<rparr>"

definition initialRegistry :: "AnnotationProvider \<Rightarrow> Registry" where
  "initialRegistry defaultProvider =
     \<lparr> annotationProviders = [(''default'', defaultProvider)],
       activeProviders = [''default''] \<rparr>"

definition provider_of_options :: "AnnotationProviderOptions \<Rightarrow> AnnotationProvider" where
  "provider_of_options options =
     \<lparr> p_id = (case o_id options of
                 Some i \<Rightarrow> if i = [] then replace_non_a_z_0_9 (toLowerCase (o_name options)) else i
               | None \<Rightarrow> replace_non_a_z_0_9 (toLowerCase (o_name options))),
       p_name = o_name options,
       p_description = o_description options,
       p_canHandle = o_canHandle options,
       p_render = o_render options \<rparr>"

definition registerAnnotationProvider :: "AnnotationProviderOptions \<Rightarrow> Registry \<Rightarrow> Registry" where
  "registerAnnotationProvider options reg =
     (let provider = provider_of_options options
      in reg \<lparr> annotationProviders := Map_set (p_id provider) provider (annotationProviders reg),
               activeProviders := Set_add (p_id provider) (activeProviders reg) \<rparr>)"

definition unregisterAnnotationProvider :: "string \<Rightarrow> Registry \<Rightarrow> console list \<times> Registry" where
  "unregisterAnnotationProvider i reg =
     (if i = ''default''
      then ([ConsoleWarn ''Cannot unregister the default annotation provider''], reg)
      else if Map_has i (annotationProviders reg)
      then ([], reg \<lparr> annotationProviders := Map_delete i (annotationProviders reg) \<rparr>)
      else ([ConsoleWarn (''Annotation provider not found: '' @ i)],
            reg \<lparr> annotationProviders := Map_delete i (annotationProviders reg) \<rparr>))"


definition getAllProviders :: "Registry \<Rightarrow> AnnotationProvider list" where
  "getAllProviders reg = Map_values (annotationProviders reg)"

text \<open>
  The loop of \<^verbatim>\<open>findProviderForAnnotation\<close> over the custom providers: an inactive
  provider is passed over without being asked, the first active one that can
  handle the annotation is returned. The call of \<^verbatim>\<open>canHandle\<close> stands in no
  \<^verbatim>\<open>try\<close>: when it throws, the loop and the function end with that exception
  (\<open>Inl\<close>).
\<close>

fun firstActiveHandler ::
  "string list \<Rightarrow> OverlayAnnotation \<Rightarrow> AnnotationProvider list
     \<Rightarrow> string + AnnotationProvider option" where
  "firstActiveHandler active annotation [] = Inr None"
| "firstActiveHandler active annotation (provider # rest) =
     (if Set_has (p_id provider) active
      then (case p_canHandle provider annotation of
              CanHandleThrew error \<Rightarrow> Inl error
            | Answered canHandle \<Rightarrow>
                if canHandle then Inr (Some provider)
                else firstActiveHandler active annotation rest)
      else firstActiveHandler active annotation rest)"

definition findProviderForAnnotation ::
  "AnnotationProvider \<Rightarrow> Registry \<Rightarrow> OverlayAnnotation \<Rightarrow> string + AnnotationProvider" where
  "findProviderForAnnotation defaultProvider reg annotation =
     (let providers = getAllProviders reg;
          customProviders = filter (\<lambda>p. p_id p \<noteq> ''default'') providers
      in case firstActiveHandler (activeProviders reg) annotation customProviders of
           Inl error \<Rightarrow> Inl error
         | Inr (Some provider) \<Rightarrow> Inr provider
         | Inr None \<Rightarrow> Inr defaultProvider)"

definition toggleProvider :: "string \<Rightarrow> Registry \<Rightarrow> console list \<times> Registry" where
  "toggleProvider providerId reg =
     (if providerId = ''default'' then ([], reg)
      else if Set_has providerId (activeProviders reg)
      then (let (out, reg1) = unregisterAnnotationProvider providerId reg
            in (out, reg1 \<lparr> activeProviders := Set_delete providerId (activeProviders reg1) \<rparr>))
      else (case Map_get providerId (annotationProviders reg) of
              Some provider \<Rightarrow>
                (let reg1 = registerAnnotationProvider
                              \<lparr> o_id = Some (p_id provider), o_name = p_name provider,
                                o_description = p_description provider,
                                o_canHandle = p_canHandle provider,
                                o_render = p_render provider \<rparr> reg
                 in ([], reg1 \<lparr> activeProviders := Set_add providerId (activeProviders reg1) \<rparr>))
            | None \<Rightarrow> ([], reg)))"

definition isProviderActive :: "string \<Rightarrow> Registry \<Rightarrow> bool" where
  "isProviderActive providerId reg = Set_has providerId (activeProviders reg)"

definition getActiveProviders :: "Registry \<Rightarrow> string list" where
  "getActiveProviders reg = activeProviders reg"

definition cleanupProviders :: "Registry \<Rightarrow> Registry" where
  "cleanupProviders reg =
     (let customProviders = filter (\<lambda>i. i \<noteq> ''default'') (Map_keys (annotationProviders reg));
          reg1 = foldl (\<lambda>r i. r \<lparr> annotationProviders := Map_delete i (annotationProviders r),
                                    activeProviders := Set_delete i (activeProviders r) \<rparr>)
                       reg customProviders
      in reg1 \<lparr> activeProviders := Set_add ''default'' [] \<rparr>)"

section \<open>Coordinates and the hit-test index\<close>

text \<open>
  \<^verbatim>\<open>convertCoordinates\<close> walks the flat list two entries at a time. On a list of odd
  length the last step reads one entry past the end, and the product of
  \<^verbatim>\<open>undefined\<close> with the scale is \<open>NaN\<close>.
\<close>

fun convertCoordinates :: "number list \<Rightarrow> number \<Rightarrow> (number \<times> number) list" where
  "convertCoordinates [] effectiveDpi = []"
| "convertCoordinates [x] effectiveDpi = [(num_mul x effectiveDpi, NaN)]"
| "convertCoordinates (x # y # rest) effectiveDpi =
     (num_mul x effectiveDpi, num_mul y effectiveDpi) # convertCoordinates rest effectiveDpi"

text \<open>
  The same loop with the product of two doubles as a parameter \<open>mul\<close>, for
  statements about rounding: \<open>convertCoordinates\<close> is the instance with the
  exact product. \<open>flattenPoints\<close> writes a list of points as a flat coordinate
  list again, so that a converted polygon can be converted once more.
\<close>

fun convertCoordinates_with ::
  "(number \<Rightarrow> number \<Rightarrow> number) \<Rightarrow> number list \<Rightarrow> number \<Rightarrow> (number \<times> number) list" where
  "convertCoordinates_with mul [] effectiveDpi = []"
| "convertCoordinates_with mul [x] effectiveDpi = [(mul x effectiveDpi, NaN)]"
| "convertCoordinates_with mul (x # y # rest) effectiveDpi =
     (mul x effectiveDpi, mul y effectiveDpi) # convertCoordinates_with mul rest effectiveDpi"

fun flattenPoints :: "(number \<times> number) list \<Rightarrow> number list" where
  "flattenPoints [] = []"
| "flattenPoints ((x, y) # points) = x # y # flattenPoints points"

text \<open>A \<^verbatim>\<open>Path2D\<close> is the list of the calls that built it.\<close>

datatype path_command = MoveTo number number | LineTo number number | ClosePath

type_synonym Path2D = "path_command list"

definition createAnnotationPath :: "number list \<Rightarrow> number \<Rightarrow> Path2D" where
  "createAnnotationPath r effectiveDpi =
     (case convertCoordinates r effectiveDpi of
        [] \<Rightarrow> [ClosePath]
      | (x, y) # points \<Rightarrow> MoveTo x y # map (\<lambda>(x, y). LineTo x y) points @ [ClosePath])"

definition getAnnotationsForPage :: "OverlayAnnotation list \<Rightarrow> nat \<Rightarrow> OverlayAnnotation list" where
  "getAnnotationsForPage pageAnnotations pageNumber =
     filter (\<lambda>annotation. page annotation = toString_int (int pageNumber + 1)) pageAnnotations"

definition annotationId :: "OverlayAnnotation \<Rightarrow> string" where
  "annotationId annotation =
     ''annotation-'' @ page annotation @ ''-'' @ toString_int (line annotation)"

text \<open>
  \<^verbatim>\<open>drawAnnotations\<close> empties the index and stores one entry for each annotation of
  the page, in the order of the annotation list. The strokes it paints on the
  canvas are not part of the model.
\<close>

type_synonym AnnotationPaths = "(string \<times> (Path2D \<times> OverlayAnnotation)) list"

definition drawAnnotations :: "OverlayAnnotation list \<Rightarrow> nat \<Rightarrow> number \<Rightarrow> AnnotationPaths" where
  "drawAnnotations pageAnnotations pageNumber effectiveDpi =
     foldl (\<lambda>paths annotation.
              Map_set (annotationId annotation)
                      (createAnnotationPath (rect annotation) effectiveDpi, annotation) paths)
           [] (getAnnotationsForPage pageAnnotations pageNumber)"

text \<open>
  The containment test \<^verbatim>\<open>ctx.isPointInPath\<close> belongs to the canvas of the browser; the
  hit test takes it as a parameter.
\<close>

fun getAnnotationAtPoint ::
  "(Path2D \<Rightarrow> number \<Rightarrow> number \<Rightarrow> bool) \<Rightarrow> AnnotationPaths \<Rightarrow> number \<Rightarrow> number
     \<Rightarrow> OverlayAnnotation option" where
  "getAnnotationAtPoint isPointInPath [] x y = None"
| "getAnnotationAtPoint isPointInPath ((k, (path, annotation)) # entries) x y =
     (if isPointInPath path x y then Some annotation
      else getAnnotationAtPoint isPointInPath entries x y)"

definition handleAnnotationHover ::
  "(Path2D \<Rightarrow> number \<Rightarrow> number \<Rightarrow> bool) \<Rightarrow> AnnotationPaths \<Rightarrow> number \<Rightarrow> number \<Rightarrow> bool" where
  "handleAnnotationHover isPointInPath paths x y =
     (getAnnotationAtPoint isPointInPath paths x y \<noteq> None)"

text \<open>
  The viewer's own ray-casting test \<^verbatim>\<open>isPointInPolygon\<close> on a flat coordinate list.
  An index outside the list reads \<^verbatim>\<open>undefined\<close>, which compares and computes as
  \<open>NaN\<close>. The quotient is evaluated only behind the test that \<open>yi\<close> and \<open>yj\<close> lie on
  different sides of the point, so its divisor is never zero.
\<close>

function isPointInPolygon_loop ::
  "number \<Rightarrow> number \<Rightarrow> number list \<Rightarrow> nat \<Rightarrow> int \<Rightarrow> bool \<Rightarrow> bool" where
  "isPointInPolygon_loop px py polygon i j inside =
     (if i < length polygon
      then (let xi = at_index polygon (int i); yi = at_index polygon (int i + 1);
                xj = at_index polygon j; yj = at_index polygon (j + 1);
                intersect =
                  ((num_gt yi py \<noteq> num_gt yj py)
                   \<and> num_lt px (num_add (num_div (num_mul (num_sub xj xi) (num_sub py yi))
                                                  (num_sub yj yi)) xi))
            in isPointInPolygon_loop px py polygon (i + 2) (int i)
                 (if intersect then \<not> inside else inside))
      else inside)"
  by pat_completeness auto
termination
  by (relation "measure (\<lambda>(px, py, polygon, i, j, inside). length polygon - i)") auto

definition isPointInPolygon :: "number \<times> number \<Rightarrow> number list \<Rightarrow> bool" where
  "isPointInPolygon point polygon =
     isPointInPolygon_loop (fst point) (snd point) polygon 0 (int (length polygon) - 2) False"

text \<open>The vertices a path was built from, as a flat coordinate list.\<close>

fun path_coordinates :: "Path2D \<Rightarrow> number list" where
  "path_coordinates [] = []"
| "path_coordinates (MoveTo x y # cs) = x # y # path_coordinates cs"
| "path_coordinates (LineTo x y # cs) = x # y # path_coordinates cs"
| "path_coordinates (ClosePath # cs) = path_coordinates cs"

definition rayCastingContains :: "Path2D \<Rightarrow> number \<Rightarrow> number \<Rightarrow> bool" where
  "rayCastingContains path x y = isPointInPolygon (x, y) (path_coordinates path)"

section \<open>Rendering an annotation\<close>

text \<open>
  What a call leaves behind: the provider renders it invoked, the console lines
  it wrote and the highlight it painted, in order; the overlay container as it
  stands afterwards; and the exception it threw, if one left it.
\<close>

datatype event = RenderCall string | Console console | HighlightPath Path2D

datatype html_outcome = Html string | HtmlThrew string

text \<open>
  The host of the composable: the optional \<^verbatim>\<open>htmlAnnotation\<close> callback, whether the
  canvas is mounted, and the overlay container, kept as the list of the
  \<^verbatim>\<open>data-annotation-id\<close> attributes of its overlay children (\<open>None\<close> when the
  container is not mounted). Position and size of an overlay are not modelled,
  and page strings are taken to be free of quotes, so that the attribute
  selector of the lookup is well formed.
\<close>

record Host =
  htmlAnnotation :: "(AnnotationRenderContext \<Rightarrow> OverlayAnnotation \<Rightarrow> html_outcome) option"
  canvasMounted :: bool
  htmlOverlayContainer :: "string list option"

record Completion =
  events :: "event list"
  host :: Host
  thrown :: "string option"

definition returns :: "Host \<Rightarrow> Completion" where
  "returns h = \<lparr> events = [], host = h, thrown = None \<rparr>"

definition emit :: "event \<Rightarrow> Host \<Rightarrow> Completion" where
  "emit e h = \<lparr> events = [e], host = h, thrown = None \<rparr>"

definition raises :: "string \<Rightarrow> Host \<Rightarrow> Completion" where
  "raises error h = \<lparr> events = [], host = h, thrown = Some error \<rparr>"

text \<open>Sequencing: a thrown exception skips what follows. \<open>tryCatch\<close> runs the handler on it.\<close>

definition andThen :: "Completion \<Rightarrow> (Host \<Rightarrow> Completion) \<Rightarrow> Completion" where
  "andThen first next =
     (case thrown first of
        Some e \<Rightarrow> first
      | None \<Rightarrow> (let second = next (host first)
                 in second \<lparr> events := events first @ events second \<rparr>))"

definition tryCatch :: "Completion \<Rightarrow> (string \<Rightarrow> Host \<Rightarrow> Completion) \<Rightarrow> Completion" where
  "tryCatch body handler =
     (case thrown body of
        None \<Rightarrow> body
      | Some e \<Rightarrow> (let handled = handler e (host body)
                  in handled \<lparr> events := events body @ events handled \<rparr>))"

definition callRender :: "AnnotationProvider \<Rightarrow> AnnotationRenderContext \<Rightarrow> Host \<Rightarrow> Completion" where
  "callRender provider context h =
     \<lparr> events = [RenderCall (p_id provider)], host = h,
       thrown = (case p_render provider context of Returned \<Rightarrow> None | Threw e \<Rightarrow> Some e) \<rparr>"

text \<open>
  The bounds of the converted points, \<^verbatim>\<open>Math.min(...)\<close> and \<^verbatim>\<open>Math.max(...)\<close> over
  the first point and the others.
\<close>

definition boundingRect :: "number \<times> number \<Rightarrow> (number \<times> number) list \<Rightarrow> RenderRect" where
  "boundingRect p ps =
     (let mnX = Math_min (fst p) (map fst ps);
          mxX = Math_max (fst p) (map fst ps);
          mnY = Math_min (snd p) (map snd ps);
          mxY = Math_max (snd p) (map snd ps)
      in \<lparr> minX = mnX, maxX = mxX, minY = mnY, maxY = mxY,
           width = num_sub mxX mnX, height = num_sub mxY mnY \<rparr>)"

definition overlayId :: "OverlayAnnotation \<Rightarrow> string" where
  "overlayId annotation = page annotation @ ''-'' @ toString_int (line annotation)"

text \<open>
  The simple HTML overlay branch of \<^verbatim>\<open>drawAnnotationText\<close>. The second component
  says whether the function returned from inside the branch. With the canvas
  mounted the coordinate conversion yields a result, so the overlay is appended;
  an exception of the callback is caught, logged, and rendering falls through
  to the providers.
\<close>

definition simpleHtmlRender ::
  "AnnotationRenderContext \<Rightarrow> OverlayAnnotation \<Rightarrow> Host \<Rightarrow> Completion \<times> bool" where
  "simpleHtmlRender context annotation h =
     (case htmlAnnotation h of
        None \<Rightarrow> (returns h, False)
      | Some callback \<Rightarrow>
          (if \<not> canvasMounted h then (returns h, False)
           else (case htmlOverlayContainer h of
                   None \<Rightarrow> (returns h, False)
                 | Some children \<Rightarrow>
                     (if overlayId annotation \<in> set children then (returns h, True)
                      else (case callback context annotation of
                              Html htmlContent \<Rightarrow>
                                (returns (h \<lparr> htmlOverlayContainer :=
                                               Some (children @ [overlayId annotation]) \<rparr>), True)
                            | HtmlThrew error \<Rightarrow>
                                (emit (Console (ConsoleWarn
                                         ''[Simple HTML Render] Error creating overlay:'')) h,
                                 False))))))"

text \<open>
  The \<^verbatim>\<open>try\<close> statement at the end of \<^verbatim>\<open>drawAnnotationText\<close>, for the provider that
  resolution returned: render with it; in the handler of a failure, unless the
  provider is \<^verbatim>\<open>'default'\<close> or the fallback is disabled, render with the default
  provider, whose own failure is handled by a log line.
\<close>

definition renderWithFallback ::
  "AnnotationProvider \<Rightarrow> bool \<Rightarrow> AnnotationProvider \<Rightarrow> AnnotationRenderContext
     \<Rightarrow> Host \<Rightarrow> Completion" where
  "renderWithFallback defaultProvider disableFallbackRendering provider context h =
     tryCatch (callRender provider context h)
       (\<lambda>error h1.
          andThen (emit (Console (ConsoleWarn
                           (''Error rendering annotation with provider '' @ p_id provider @ '':''))) h1)
            (\<lambda>h2. if p_id provider \<noteq> ''default'' \<and> \<not> disableFallbackRendering
                   then tryCatch (callRender defaultProvider context h2)
                          (\<lambda>fallbackError h3.
                             emit (Console (ConsoleError ''Default provider also failed:'')) h3)
                   else returns h2))"

text \<open>
  \<^verbatim>\<open>drawAnnotationText\<close>: the three guards, the HTML overlay branch, then the
  resolution of the provider, which stands before the \<^verbatim>\<open>try\<close> statement and so
  passes an exception of \<^verbatim>\<open>canHandle\<close> on to the caller, then the \<^verbatim>\<open>try\<close>
  statement.
\<close>

definition drawAnnotationText ::
  "AnnotationProvider \<Rightarrow> Registry \<Rightarrow> bool \<Rightarrow> OverlayAnnotation \<Rightarrow> number \<Rightarrow> nat
     \<Rightarrow> Host \<Rightarrow> Completion" where
  "drawAnnotationText defaultProvider reg disableFallbackRendering annotation effectiveDpi pageNumber h =
     (if content annotation = [] \<or> trim_is_empty (content annotation) then returns h
      else (let points = convertCoordinates (rect annotation) effectiveDpi
            in if length points < 3 then returns h
               else (case points of
                       [] \<Rightarrow> returns h
                     | p # ps \<Rightarrow>
                         (let r = boundingRect p ps
                          in if num_le (width r) (Num 0) \<or> num_le (height r) (Num 0)
                             then returns h
                             else (let context = \<lparr> ctx_annotation = annotation,
                                                     ctx_effectiveDpi = effectiveDpi,
                                                     ctx_pageNumber = pageNumber,
                                                     ctx_rect = r \<rparr>;
                                       (simple, returned) = simpleHtmlRender context annotation h
                                   in if returned then simple
                                      else andThen simple
                                             (\<lambda>h1. case findProviderForAnnotation defaultProvider
                                                          reg annotation of
                                                     Inl error \<Rightarrow> raises error h1
                                                   | Inr provider \<Rightarrow>
                                                       renderWithFallback defaultProvider
                                                         disableFallbackRendering provider
                                                         context h1))))))"

definition drawHoverEffect ::
  "AnnotationProvider \<Rightarrow> Registry \<Rightarrow> bool \<Rightarrow> (Path2D \<Rightarrow> number \<Rightarrow> number \<Rightarrow> bool)
     \<Rightarrow> AnnotationPaths \<Rightarrow> number \<Rightarrow> number \<Rightarrow> number \<Rightarrow> Host \<Rightarrow> Completion" where
  "drawHoverEffect defaultProvider reg disableFallbackRendering isPointInPath paths x y effectiveDpi h =
     (case getAnnotationAtPoint isPointInPath paths x y of
        None \<Rightarrow> returns h
      | Some annotation \<Rightarrow>
          (case Map_get (annotationId annotation) paths of
             None \<Rightarrow> returns h
           | Some (path, stored) \<Rightarrow>
               andThen (emit (HighlightPath path) h)
                 (\<lambda>h1. tryCatch (drawAnnotationText defaultProvider reg disableFallbackRendering
                                   annotation effectiveDpi 0 h1)
                          (\<lambda>error h2.
                             emit (Console (ConsoleWarn ''Error drawing annotation text:'')) h2))))"

section \<open>Pointer movement\<close>

text \<open>
  \<^verbatim>\<open>handleCanvasMouseMove\<close> keeps the previous hover flag and the previously hovered
  annotation. The model lists the calls one pointer-move makes, in order, and
  returns the tracking state; \<open>x\<close> and \<open>y\<close> are the pointer position already
  scaled to raster pixels. An event is processed to its end before the next one
  starts.
\<close>

record HoverState =
  previousHoverState :: bool
  previousHoveredAnnotation :: "OverlayAnnotation option"

datatype action =
  ClearRect | ClearHtmlOverlays | DrawHoverEffect number number number | SetCursor string

definition initialHoverState :: HoverState where
  "initialHoverState = \<lparr> previousHoverState = False, previousHoveredAnnotation = None \<rparr>"

definition hoverEffectiveDpi :: "number \<Rightarrow> number" where
  "hoverEffectiveDpi devicePixelRatio =
     (let baseScale = num_div (num_mul devicePixelRatio (Num 96)) (Num 72)
      in num_mul (num_mul baseScale (Num 72)) (Num 1))"

definition handleCanvasMouseMove ::
  "bool \<Rightarrow> number \<Rightarrow> (Path2D \<Rightarrow> number \<Rightarrow> number \<Rightarrow> bool) \<Rightarrow> AnnotationPaths
     \<Rightarrow> number \<times> number \<Rightarrow> HoverState \<Rightarrow> action list \<times> HoverState" where
  "handleCanvasMouseMove canvasesMounted devicePixelRatio isPointInPath paths pointer st =
     (if \<not> canvasesMounted then ([], st)
      else (let x = fst pointer; y = snd pointer;
                isOverAnnotation = handleAnnotationHover isPointInPath paths x y;
                currentAnnotation =
                  (if isOverAnnotation then getAnnotationAtPoint isPointInPath paths x y else None);
                annotationChanged = (previousHoveredAnnotation st \<noteq> currentAnnotation);
                hoverStateChanged = (previousHoverState st \<noteq> isOverAnnotation);
                cursor = [SetCursor (if isOverAnnotation then ''pointer'' else ''default'')]
            in if hoverStateChanged \<or> annotationChanged
               then ([ClearRect]
                     @ (if \<not> isOverAnnotation then [ClearHtmlOverlays]
                        else if annotationChanged then [ClearHtmlOverlays] else [])
                     @ (if isOverAnnotation
                        then [DrawHoverEffect x y (hoverEffectiveDpi devicePixelRatio)] else [])
                     @ cursor,
                     \<lparr> previousHoverState = isOverAnnotation,
                       previousHoveredAnnotation = currentAnnotation \<rparr>)
               else (cursor, st)))"

text \<open>
  The handler is asynchronous: it awaits \<^verbatim>\<open>drawHoverEffect\<close> and writes the tracking
  state only afterwards. \<open>handleCanvasMouseMove_begin\<close> is the part that runs before
  the await and returns the state that is still to be written;
  \<open>handleCanvasMouseMove_finish\<close> is the part that runs after it. When the pointer is
  over no annotation nothing is awaited and the state is written at once.
\<close>

definition handleCanvasMouseMove_begin ::
  "bool \<Rightarrow> number \<Rightarrow> (Path2D \<Rightarrow> number \<Rightarrow> number \<Rightarrow> bool) \<Rightarrow> AnnotationPaths
     \<Rightarrow> number \<times> number \<Rightarrow> HoverState \<Rightarrow> action list \<times> HoverState \<times> HoverState option" where
  "handleCanvasMouseMove_begin canvasesMounted devicePixelRatio isPointInPath paths pointer st =
     (if \<not> canvasesMounted then ([], st, None)
      else (let x = fst pointer; y = snd pointer;
                isOverAnnotation = handleAnnotationHover isPointInPath paths x y;
                currentAnnotation =
                  (if isOverAnnotation then getAnnotationAtPoint isPointInPath paths x y else None);
                annotationChanged = (previousHoveredAnnotation st \<noteq> currentAnnotation);
                hoverStateChanged = (previousHoverState st \<noteq> isOverAnnotation);
                written = \<lparr> previousHoverState = isOverAnnotation,
                            previousHoveredAnnotation = currentAnnotation \<rparr>
            in if hoverStateChanged \<or> annotationChanged
               then (if isOverAnnotation
                     then ([ClearRect]
                           @ (if annotationChanged then [ClearHtmlOverlays] else [])
                           @ [DrawHoverEffect x y (hoverEffectiveDpi devicePixelRatio)],
                           st, Some written)
                     else ([ClearRect, ClearHtmlOverlays], written, None))
               else ([], st, None)))"

definition handleCanvasMouseMove_finish ::
  "bool \<Rightarrow> (Path2D \<Rightarrow> number \<Rightarrow> number \<Rightarrow> bool) \<Rightarrow> AnnotationPaths \<Rightarrow> number \<times> number
     \<Rightarrow> HoverState option \<Rightarrow> HoverState \<Rightarrow> action list \<times> HoverState" where
  "handleCanvasMouseMove_finish canvasesMounted isPointInPath paths pointer pending st =
     (if \<not> canvasesMounted then ([], st)
      else ([SetCursor (if handleAnnotationHover isPointInPath paths (fst pointer) (snd pointer)
                        then ''pointer'' else ''default'')],
            (case pending of Some written \<Rightarrow> written | None \<Rightarrow> st)))"

text \<open>A sequence of pointer-moves, each processed after the one before it.\<close>

fun pointerMoves ::
  "bool \<Rightarrow> number \<Rightarrow> (Path2D \<Rightarrow> number \<Rightarrow> number \<Rightarrow> bool) \<Rightarrow> AnnotationPaths
     \<Rightarrow> (number \<times> number) list \<Rightarrow> HoverState \<Rightarrow> action list \<times> HoverState" where
  "pointerMoves canvasesMounted devicePixelRatio isPointInPath paths [] st = ([], st)"
| "pointerMoves canvasesMounted devicePixelRatio isPointInPath paths (pointer # pointers) st =
     (let (acts, st1) = handleCanvasMouseMove canvasesMounted devicePixelRatio isPointInPath paths pointer st;
          (acts', st2) = pointerMoves canvasesMounted devicePixelRatio isPointInPath paths pointers st1
      in (acts @ acts', st2))"

text \<open>The redraw work in a list of calls: teardown calls and setup calls.\<close>

definition teardowns :: "action list \<Rightarrow> nat \<times> nat" where
  "teardowns acts = (count_list acts ClearRect, count_list acts ClearHtmlOverlays)"

definition setups :: "action list \<Rightarrow> nat" where
  "setups acts = length (filter (\<lambda>a. case a of DrawHoverEffect x y d \<Rightarrow> True | _ \<Rightarrow> False) acts)"

section \<open>Resolution as the specification words it\<close>

text \<open>
  The specification orders the active providers other than \<^verbatim>\<open>'default'\<close> by priority,
  highest first, ties in registration order, and takes the first that can
  handle the annotation. The registry keeps no priority, so the priority each
  registrant assigned is a parameter here. \<open>sort_key\<close> is a stable insertion sort.
\<close>

definition resolve_by_priority ::
  "(AnnotationProvider \<Rightarrow> int) \<Rightarrow> AnnotationProvider \<Rightarrow> Registry \<Rightarrow> OverlayAnnotation
     \<Rightarrow> AnnotationProvider" where
  "resolve_by_priority priority defaultProvider reg annotation =
     (let candidates = filter (\<lambda>p. p_id p \<noteq> ''default'' \<and> Set_has (p_id p) (activeProviders reg))
                              (getAllProviders reg);
          ordered = sort_key (\<lambda>p. - priority p) candidates
      in case find (\<lambda>p. p_canHandle p annotation = Answered True) ordered of
           Some provider \<Rightarrow> provider
         | None \<Rightarrow> defaultProvider)"

section \<open>The earlier revision of the registry\<close>

text \<open>
  The composable under \<^verbatim>\<open>src/composables\<close> is an earlier revision: its registry is a
  map owned by the instance, a provider carries a \<^verbatim>\<open>priority\<close> (\<open>0\<close> when the options
  give none), there is no activation, and the default provider is not stored in
  the map. \<^verbatim>\<open>getAllProviders\<close> sorts the registered providers by descending
  priority; the sort of the language is stable, as the insertion sort \<open>sort_key\<close>
  is. Its \<^verbatim>\<open>convertCoordinates\<close> and \<^verbatim>\<open>unregisterAnnotationProvider\<close> read as the later
  ones do.
\<close>

record PriorityProvider = AnnotationProvider +
  p_priority :: int

record PriorityProviderOptions =
  po_id :: string
  po_name :: string
  po_description :: "string option"
  po_canHandle :: "OverlayAnnotation \<Rightarrow> canHandle_outcome"
  po_render :: "AnnotationRenderContext \<Rightarrow> render_outcome"
  po_priority :: "int option"

definition registerAnnotationProvider_v1 ::
  "PriorityProviderOptions \<Rightarrow> (string \<times> PriorityProvider) list \<Rightarrow> (string \<times> PriorityProvider) list" where
  "registerAnnotationProvider_v1 options providers =
     Map_set (po_id options)
       \<lparr> p_id = po_id options, p_name = po_name options,
         p_description = po_description options, p_canHandle = po_canHandle options,
         p_render = po_render options,
         p_priority = (case po_priority options of Some n \<Rightarrow> n | None \<Rightarrow> 0) \<rparr>
       providers"

definition unregisterAnnotationProvider_v1 ::
  "string \<Rightarrow> (string \<times> PriorityProvider) list \<Rightarrow> console list \<times> (string \<times> PriorityProvider) list" where
  "unregisterAnnotationProvider_v1 i providers =
     (if i = ''default''
      then ([ConsoleWarn ''Cannot unregister the default annotation provider''], providers)
      else if Map_has i providers then ([], Map_delete i providers)
      else ([ConsoleWarn (''Annotation provider not found: '' @ i)], Map_delete i providers))"

definition getAllProviders_v1 :: "(string \<times> PriorityProvider) list \<Rightarrow> PriorityProvider list" where
  "getAllProviders_v1 providers = sort_key (\<lambda>p. - p_priority p) (Map_values providers)"

text \<open>
  The loop of the earlier \<^verbatim>\<open>findProviderForAnnotation\<close> asks the sorted providers in
  turn; here, too, the call of \<^verbatim>\<open>canHandle\<close> stands in no \<^verbatim>\<open>try\<close>.
\<close>

fun firstHandler_v1 ::
  "OverlayAnnotation \<Rightarrow> PriorityProvider list \<Rightarrow> string + PriorityProvider option" where
  "firstHandler_v1 annotation [] = Inr None"
| "firstHandler_v1 annotation (provider # rest) =
     (case p_canHandle provider annotation of
        CanHandleThrew error \<Rightarrow> Inl error
      | Answered canHandle \<Rightarrow>
          if canHandle then Inr (Some provider) else firstHandler_v1 annotation rest)"

definition findProviderForAnnotation_v1 ::
  "PriorityProvider \<Rightarrow> (string \<times> PriorityProvider) list \<Rightarrow> OverlayAnnotation
     \<Rightarrow> string + PriorityProvider" where
  "findProviderForAnnotation_v1 defaultProvider providers annotation =
     (case firstHandler_v1 annotation (getAllProviders_v1 providers) of
        Inl error \<Rightarrow> Inl error
      | Inr (Some provider) \<Rightarrow> Inr provider
      | Inr None \<Rightarrow> Inr defaultProvider)"

section \<open>Example values\<close>

text \<open>\<^verbatim>\<open>String.prototype.includes\<close>: the search string occurs somewhere in the string.\<close>

fun is_prefix :: "'a list \<Rightarrow> 'a list \<Rightarrow> bool" where
  "is_prefix [] s = True"
| "is_prefix (c # cs) [] = False"
| "is_prefix (c # cs) (d # ds) = (c = d \<and> is_prefix cs ds)"

fun String_includes :: "'a list \<Rightarrow> 'a list \<Rightarrow> bool" where
  "String_includes [] searchString = is_prefix searchString []"
| "String_includes (c # cs) searchString =
     (is_prefix searchString (c # cs) \<or> String_includes cs searchString)"

definition example_default :: AnnotationProvider where
  "example_default = createDefaultProvider (\<lambda>_. Returned)"

definition example_highlight :: AnnotationProviderOptions where
  "example_highlight =
     \<lparr> o_id = Some ''highlight'', o_name = ''Highlight Provider'', o_description = None,
       o_canHandle = (\<lambda>a. Answered (String_includes (content a) (code_units ''IMPORTANT''))),
       o_render = (\<lambda>_. Returned) \<rparr>"

definition example_json_debug :: AnnotationProviderOptions where
  "example_json_debug =
     \<lparr> o_id = None, o_name = ''JSON Debug Provider'', o_description = None,
       o_canHandle = (\<lambda>a. Answered True), o_render = (\<lambda>_. Threw ''boom'') \<rparr>"

definition example_annotation :: "string \<Rightarrow> OverlayAnnotation" where
  "example_annotation text =
     \<lparr> page = ''1'', content = code_units text,
       rect = [Num 0, Num 0, Num 1, Num 0, Num 1, Num 1, Num 0, Num 1], line = 1,
       atype = None \<rparr>"

definition example_low :: AnnotationProviderOptions where
  "example_low =
     \<lparr> o_id = Some ''low'', o_name = ''Low priority'', o_description = None,
       o_canHandle = (\<lambda>a. Answered True), o_render = (\<lambda>_. Returned) \<rparr>"

definition example_high :: AnnotationProviderOptions where
  "example_high =
     \<lparr> o_id = Some ''high'', o_name = ''High priority'', o_description = None,
       o_canHandle = (\<lambda>a. Answered True), o_render = (\<lambda>_. Returned) \<rparr>"

definition example_priority :: "AnnotationProvider \<Rightarrow> int" where
  "example_priority p = (if p_id p = ''high'' then 10 else if p_id p = ''low'' then 5 else 0)"

definition example_two_providers :: Registry where
  "example_two_providers =
     registerAnnotationProvider example_high
       (registerAnnotationProvider example_low (initialRegistry example_default))"

definition example_registry :: Registry where
  "example_registry = registerAnnotationProvider example_highlight (initialRegistry example_default)"

definition example_host :: Host where
  "example_host = \<lparr> htmlAnnotation = None, canvasMounted = True, htmlOverlayContainer = Some [] \<rparr>"

definition example_failing_registry :: Registry where
  "example_failing_registry =
     registerAnnotationProvider example_json_debug (initialRegistry example_default)"

text \<open>A provider whose \<^verbatim>\<open>canHandle\<close> throws, and a host whose HTML callback throws.\<close>

definition example_broken :: AnnotationProviderOptions where
  "example_broken =
     \<lparr> o_id = Some ''broken'', o_name = ''Broken Provider'', o_description = None,
       o_canHandle = (\<lambda>a. CanHandleThrew ''boom''), o_render = (\<lambda>_. Returned) \<rparr>"

definition example_broken_registry :: Registry where
  "example_broken_registry =
     registerAnnotationProvider example_broken (initialRegistry example_default)"

definition example_html_host :: Host where
  "example_html_host =
     \<lparr> htmlAnnotation = Some (\<lambda>context annotation. HtmlThrew ''bad html''),
       canvasMounted = True, htmlOverlayContainer = Some [] \<rparr>"

definition example_segment :: OverlayAnnotation where
  "example_segment =
     \<lparr> page = ''1'', content = code_units ''two points'', rect = [Num 0, Num 0, Num 1, Num 1], line = 2,
       atype = None \<rparr>"

definition example_flat :: OverlayAnnotation where
  "example_flat =
     \<lparr> page = ''1'', content = code_units ''flat'', rect = [Num 0, Num 1, Num 2, Num 1, Num 5, Num 1],
       line = 3, atype = None \<rparr>"

definition example_paths :: AnnotationPaths where
  "example_paths = drawAnnotations [example_annotation ''x''] 0 (Num 96)"

section \<open>Notions used in the statements about pointer movement\<close>

text \<open>
  The annotation under a pointer position, and the relation the two tracking
  fields keep: the hover flag is set exactly when an annotation is remembered.
\<close>

definition hitAt ::
  "(Path2D \<Rightarrow> number \<Rightarrow> number \<Rightarrow> bool) \<Rightarrow> AnnotationPaths \<Rightarrow> number \<times> number
     \<Rightarrow> OverlayAnnotation option" where
  "hitAt isPointInPath paths pointer =
     getAnnotationAtPoint isPointInPath paths (fst pointer) (snd pointer)"

definition hover_consistent :: "HoverState \<Rightarrow> bool" where
  "hover_consistent st = (previousHoverState st = (previousHoveredAnnotation st \<noteq> None))"

text \<open>
  A product that rounds: exact for small left factors, one part in a thousand
  too large otherwise. It serves as an instance of a rounded multiplication.
\<close>

fun example_rounded_mul :: "number \<Rightarrow> number \<Rightarrow> number" where
  "example_rounded_mul (Num a) (Num b) =
     Num (if \<bar>a\<bar> \<le> 2 then a * b else a * b * (1001 / 1000))"
| "example_rounded_mul _ _ = NaN"

section \<open>Properties of the containers\<close>

lemma Map_delete_absent: "\<not> Map_has k m \<Longrightarrow> Map_delete k m = m"
  by (induction m) (auto simp: Map_has_def Map_delete_def)


lemma Map_keys_Map_set:
  "Map_keys (Map_set k v m) = (if k \<in> set (Map_keys m) then Map_keys m else Map_keys m @ [k])"
proof (induction m)
  case Nil
  show ?case by (simp add: Map_keys_def)
next
  case (Cons e m)
  obtain k' v' where e: "e = (k', v')" by (cases e)
  show ?case using Cons by (auto simp: Map_keys_def e)
qed


lemma Map_values_Map_set_new:
  "\<not> Map_has k m \<Longrightarrow> Map_values (Map_set k v m) = Map_values m @ [v]"
  by (induction m) (auto simp: Map_has_def Map_values_def)

lemma Map_has_Map_set: "Map_has k (Map_set k v m)"
  by (induction m) (force simp: Map_has_def)+

lemma Map_has_Map_set_iff: "Map_has k (Map_set k' v m) = (k = k' \<or> Map_has k m)"
proof -
  have "Map_has k m' = (k \<in> set (Map_keys m'))" for m' :: "('a \<times> 'b) list"
    by (simp add: Map_has_def Map_keys_def)
  then show ?thesis by (auto simp: Map_keys_Map_set)
qed

lemma Map_has_Map_delete: "\<not> Map_has k (Map_delete k m)"
  by (auto simp: Map_has_def Map_delete_def)

lemma Map_has_foldl_Map_set:
  "Map_has k (foldl (\<lambda>m a. Map_set (f a) (g a) m) acc as) = (k \<in> f ` set as \<or> Map_has k acc)"
  by (induction as arbitrary: acc) (auto simp: Map_has_Map_set_iff)


section \<open>Evaluation of the examples\<close>

lemma json_debug_id: "replace_non_a_z_0_9 (toLowerCase ''JSON Debug Provider'') = ''json-debug-provider''"
  by code_simp

lemma toString_int_small: "toString_int 1 = ''1''" "toString_int 2 = ''2''" "toString_int 3 = ''3''"
  by code_simp+

lemma foo_not_blank: "code_units ''foo'' \<noteq> [] \<and> \<not> trim_is_empty (code_units ''foo'')"
  by (simp add: code_units_def trim_is_empty_def is_white_space_def)

lemma no_break_space_blank: "trim_is_empty [160, 32, 12288]"
  by (simp add: trim_is_empty_def is_white_space_def)

lemma important_notice:
  "String_includes (code_units ''IMPORTANT NOTICE'') (code_units ''IMPORTANT'')"
  "\<not> String_includes (code_units ''foo'') (code_units ''IMPORTANT'')"
  by (simp_all add: code_units_def)

lemma example_index:
  "drawAnnotations [example_annotation t] 0 (Num 96)
     = [(annotationId (example_annotation t),
         (createAnnotationPath (rect (example_annotation t)) (Num 96), example_annotation t))]"
  by (simp add: drawAnnotations_def getAnnotationsForPage_def toString_int_small example_annotation_def)

lemma example_paths_eq:
  "example_paths
     = [(annotationId (example_annotation ''x''),
         ([MoveTo (Num 0) (Num 0), LineTo (Num 96) (Num 0), LineTo (Num 96) (Num 96),
           LineTo (Num 0) (Num 96), ClosePath], example_annotation ''x''))]"
  by (simp add: example_paths_def drawAnnotations_def getAnnotationsForPage_def toString_int_small
        createAnnotationPath_def) (simp add: example_annotation_def)

lemma example_bounding_rect:
  "boundingRect (Num 0, Num 0) [(Num 96, Num 0), (Num 96, Num 96), (Num 0, Num 96)]
     = \<lparr> minX = Num 0, maxX = Num 96, minY = Num 0, maxY = Num 96, width = Num 96, height = Num 96 \<rparr>"
  by (simp add: boundingRect_def Math_min_def Math_max_def Let_def)

lemma example_failing_resolution:
  "findProviderForAnnotation dp example_failing_registry a = Inr (provider_of_options example_json_debug)"
  by (simp add: findProviderForAnnotation_def example_failing_registry_def
        registerAnnotationProvider_def initialRegistry_def getAllProviders_def Map_values_def
        Let_def json_debug_id provider_of_options_def example_json_debug_def
        example_default_def createDefaultProvider_def Set_add_def Set_has_def)

lemma example_broken_resolution:
  "findProviderForAnnotation dp example_broken_registry a = Inl ''boom''"
  by (simp add: findProviderForAnnotation_def example_broken_registry_def
        registerAnnotationProvider_def initialRegistry_def getAllProviders_def Map_values_def
        Let_def provider_of_options_def example_broken_def
        example_default_def createDefaultProvider_def Set_add_def Set_has_def)

lemma example_initial_resolution:
  "findProviderForAnnotation dp (initialRegistry example_default) a = Inr dp"
  by (simp add: findProviderForAnnotation_def initialRegistry_def getAllProviders_def
        Map_values_def Let_def example_default_def createDefaultProvider_def)

lemma example_host_html:
  "simpleHtmlRender rc a example_host = (returns example_host, False)"
  "simpleHtmlRender rc a example_html_host
     = (emit (Console (ConsoleWarn ''[Simple HTML Render] Error creating overlay:'')) example_html_host,
        False)"
  "simpleHtmlRender rc (example_annotation t) (example_html_host \<lparr> htmlOverlayContainer := Some [''1-1''] \<rparr>)
     = (returns (example_html_host \<lparr> htmlOverlayContainer := Some [''1-1''] \<rparr>), True)"
  by (simp_all add: simpleHtmlRender_def example_host_def example_html_host_def overlayId_def
        example_annotation_def toString_int_small)

section \<open>Properties of the registry\<close>

text \<open>
  C8. Unregistering the reserved id \<^verbatim>\<open>'default'\<close> is refused: a warning is written and
  the registry is returned as it was. Unregistering an id that is not registered
  writes one warning and also returns the registry as it was.
\<close>

theorem unregister_rejected_or_unknown:
  "unregisterAnnotationProvider ''default'' reg
     = ([ConsoleWarn ''Cannot unregister the default annotation provider''], reg)
   \<and> (i \<noteq> ''default'' \<and> \<not> Map_has i (annotationProviders reg) \<longrightarrow>
        unregisterAnnotationProvider i reg
          = ([ConsoleWarn (''Annotation provider not found: '' @ i)], reg))"
  by (simp add: unregisterAnnotationProvider_def Map_delete_absent)

theorem unregister_rejected_or_unknown_witness:
  "''ghost'' \<noteq> ''default''
   \<and> \<not> Map_has ''ghost'' (annotationProviders (initialRegistry (createDefaultProvider (\<lambda>_. Returned))))
   \<and> unregisterAnnotationProvider ''ghost'' (initialRegistry (createDefaultProvider (\<lambda>_. Returned)))
       = ([ConsoleWarn ''Annotation provider not found: ghost''],
          initialRegistry (createDefaultProvider (\<lambda>_. Returned)))"
  using unregister_rejected_or_unknown
          [of "initialRegistry (createDefaultProvider (\<lambda>_. Returned))" "''ghost''"]
  by (simp add: initialRegistry_def Map_has_def)




lemma firstActiveHandler_first:
  "i < length ps \<Longrightarrow> Set_has (p_id (ps ! i)) active \<Longrightarrow> p_canHandle (ps ! i) a = Answered True \<Longrightarrow>
   (\<forall>j<i. Set_has (p_id (ps ! j)) active \<longrightarrow> p_canHandle (ps ! j) a = Answered False) \<Longrightarrow>
   firstActiveHandler active a ps = Inr (Some (ps ! i))"
proof (induction ps arbitrary: i)
  case Nil
  then show ?case by simp
next
  case (Cons p ps)
  show ?case
  proof (cases i)
    case 0
    with Cons.prems show ?thesis by simp
  next
    case (Suc n)
    from Cons.prems Suc have "Set_has (p_id p) active \<longrightarrow> p_canHandle p a = Answered False" by auto
    moreover have "firstActiveHandler active a ps = Inr (Some (ps ! n))"
      using Cons.prems Suc by (intro Cons.IH) auto
    ultimately show ?thesis by (auto simp: Suc)
  qed
qed

lemma firstActiveHandler_throws:
  "i < length ps \<Longrightarrow> Set_has (p_id (ps ! i)) active \<Longrightarrow> p_canHandle (ps ! i) a = CanHandleThrew e \<Longrightarrow>
   (\<forall>j<i. Set_has (p_id (ps ! j)) active \<longrightarrow> p_canHandle (ps ! j) a = Answered False) \<Longrightarrow>
   firstActiveHandler active a ps = Inl e"
proof (induction ps arbitrary: i)
  case Nil
  then show ?case by simp
next
  case (Cons p ps)
  show ?case
  proof (cases i)
    case 0
    with Cons.prems show ?thesis by simp
  next
    case (Suc n)
    from Cons.prems Suc have "Set_has (p_id p) active \<longrightarrow> p_canHandle p a = Answered False" by auto
    moreover have "firstActiveHandler active a ps = Inl e"
      using Cons.prems Suc by (intro Cons.IH [of n]) auto
    ultimately show ?thesis by (auto simp: Suc)
  qed
qed

lemma firstActiveHandler_none:
  "(\<forall>p \<in> set ps. Set_has (p_id p) active \<longrightarrow> p_canHandle p a = Answered False) \<Longrightarrow>
   firstActiveHandler active a ps = Inr None"
  by (induction ps) auto

lemma firstActiveHandler_filter:
  "firstActiveHandler active a ps
     = firstActiveHandler active a (filter (\<lambda>p. Set_has (p_id p) active) ps)"
  by (induction ps) (auto split: canHandle_outcome.splits)

lemma filter_default_active:
  "filter (\<lambda>p. Set_has (p_id p) active) (filter (\<lambda>p. p_id p \<noteq> ''default'') ps)
     = filter (\<lambda>p. p_id p \<noteq> ''default'' \<and> Set_has (p_id p) active) ps"
  by (induction ps) auto

text \<open>
  C1, as the code has it. Resolution looks at the registered providers other than
  \<^verbatim>\<open>'default'\<close> that are active, in the order of the registry map, which is the order
  of first registration: it returns the first of them whose \<^verbatim>\<open>canHandle\<close> accepts
  the annotation, and the default provider when none does; when a \<^verbatim>\<open>canHandle\<close>
  throws before one accepts, resolution ends with that exception. A provider
  registered under a new id goes to the end of that order. No priority is kept
  or consulted.
\<close>

theorem resolution_in_registration_order:
  "(let candidates = filter (\<lambda>p. p_id p \<noteq> ''default'' \<and> isProviderActive (p_id p) reg)
                            (getAllProviders reg)
    in (\<forall>i<length candidates.
          p_canHandle (candidates ! i) a = Answered True
          \<and> (\<forall>j<i. p_canHandle (candidates ! j) a = Answered False)
          \<longrightarrow> findProviderForAnnotation dp reg a = Inr (candidates ! i))
       \<and> ((\<forall>p\<in>set candidates. p_canHandle p a = Answered False)
            \<longrightarrow> findProviderForAnnotation dp reg a = Inr dp)
       \<and> (\<forall>i<length candidates.
            p_canHandle (candidates ! i) a = CanHandleThrew e
            \<and> (\<forall>j<i. p_canHandle (candidates ! j) a = Answered False)
            \<longrightarrow> findProviderForAnnotation dp reg a = Inl e))
   \<and> (\<not> Map_has (p_id (provider_of_options options)) (annotationProviders reg) \<longrightarrow>
        getAllProviders (registerAnnotationProvider options reg)
          = getAllProviders reg @ [provider_of_options options])"
proof -
  define candidates where
    "candidates = filter (\<lambda>p. p_id p \<noteq> ''default'' \<and> isProviderActive (p_id p) reg) (getAllProviders reg)"
  have find_eq: "findProviderForAnnotation dp reg a
      = (case firstActiveHandler (activeProviders reg) a candidates of
           Inl error \<Rightarrow> Inl error | Inr (Some p) \<Rightarrow> Inr p | Inr None \<Rightarrow> Inr dp)"
    unfolding findProviderForAnnotation_def Let_def candidates_def isProviderActive_def
    by (subst firstActiveHandler_filter) (simp add: filter_default_active)
  have active: "\<And>p. p \<in> set candidates \<Longrightarrow> Set_has (p_id p) (activeProviders reg)"
    by (simp add: candidates_def isProviderActive_def)
  have first: "findProviderForAnnotation dp reg a = Inr (candidates ! i)"
    if "i < length candidates" "p_canHandle (candidates ! i) a = Answered True"
       "\<forall>j<i. p_canHandle (candidates ! j) a = Answered False"
    for i
  proof -
    have "firstActiveHandler (activeProviders reg) a candidates = Inr (Some (candidates ! i))"
      using that active by (intro firstActiveHandler_first) auto
    then show ?thesis by (simp add: find_eq)
  qed
  have throws: "findProviderForAnnotation dp reg a = Inl e"
    if "i < length candidates" "p_canHandle (candidates ! i) a = CanHandleThrew e"
       "\<forall>j<i. p_canHandle (candidates ! j) a = Answered False"
    for i
  proof -
    have "firstActiveHandler (activeProviders reg) a candidates = Inl e"
      using that active by (intro firstActiveHandler_throws [of i]) auto
    then show ?thesis by (simp add: find_eq)
  qed
  have none: "findProviderForAnnotation dp reg a = Inr dp"
    if "\<forall>p\<in>set candidates. p_canHandle p a = Answered False"
  proof -
    have "firstActiveHandler (activeProviders reg) a candidates = Inr None"
      using that by (intro firstActiveHandler_none) auto
    then show ?thesis by (simp add: find_eq)
  qed
  have order: "getAllProviders (registerAnnotationProvider options reg)
          = getAllProviders reg @ [provider_of_options options]"
    if "\<not> Map_has (p_id (provider_of_options options)) (annotationProviders reg)"
    using that by (simp add: getAllProviders_def registerAnnotationProvider_def Let_def Map_values_Map_set_new)
  show ?thesis
    unfolding Let_def candidates_def [symmetric]
    using first none throws order by blast
qed

theorem resolution_in_registration_order_witness:
  "p_canHandle (provider_of_options example_highlight) (example_annotation ''IMPORTANT NOTICE'')
     = Answered True
   \<and> p_canHandle (provider_of_options example_highlight) (example_annotation ''foo'') = Answered False
   \<and> p_canHandle (provider_of_options example_broken) (example_annotation ''foo'')
       = CanHandleThrew ''boom''
   \<and> \<not> Map_has ''highlight'' (annotationProviders (initialRegistry example_default))
   \<and> map_sum id p_id (findProviderForAnnotation example_default example_registry
           (example_annotation ''IMPORTANT NOTICE'')) = Inr ''highlight''
   \<and> map_sum id p_id (findProviderForAnnotation example_default example_registry
           (example_annotation ''foo'')) = Inr ''default''
   \<and> findProviderForAnnotation example_default example_broken_registry
           (example_annotation ''foo'') = Inl ''boom''
   \<and> map p_id (getAllProviders example_registry) = [''default'', ''highlight'']"
proof -
  have cands: "filter (\<lambda>p. p_id p \<noteq> ''default'' \<and> isProviderActive (p_id p) example_registry)
                 (getAllProviders example_registry) = [provider_of_options example_highlight]"
    by (simp add: example_registry_def registerAnnotationProvider_def provider_of_options_def
          example_highlight_def initialRegistry_def example_default_def createDefaultProvider_def
          getAllProviders_def Map_values_def Set_add_def Set_has_def isProviderActive_def Let_def)
  have cands_broken:
    "filter (\<lambda>p. p_id p \<noteq> ''default'' \<and> isProviderActive (p_id p) example_broken_registry)
       (getAllProviders example_broken_registry) = [provider_of_options example_broken]"
    by (simp add: example_broken_registry_def registerAnnotationProvider_def provider_of_options_def
          example_broken_def initialRegistry_def example_default_def createDefaultProvider_def
          getAllProviders_def Map_values_def Set_add_def Set_has_def isProviderActive_def Let_def)
  have new: "\<not> Map_has ''highlight'' (annotationProviders (initialRegistry example_default))"
    by (simp add: Map_has_def initialRegistry_def)
  have yes: "p_canHandle (provider_of_options example_highlight) (example_annotation ''IMPORTANT NOTICE'')
               = Answered True"
    by (simp add: provider_of_options_def example_highlight_def example_annotation_def important_notice)
  have no: "p_canHandle (provider_of_options example_highlight) (example_annotation ''foo'')
              = Answered False"
    by (simp add: provider_of_options_def example_highlight_def example_annotation_def important_notice)
  have boom: "p_canHandle (provider_of_options example_broken) (example_annotation ''foo'')
                = CanHandleThrew ''boom''"
    by (simp add: provider_of_options_def example_broken_def)
  have ids: "p_id (provider_of_options example_highlight) = ''highlight''" "p_id example_default = ''default''"
    by (simp_all add: provider_of_options_def example_highlight_def example_default_def createDefaultProvider_def)
  have all: "getAllProviders (initialRegistry example_default) = [example_default]"
    by (simp add: getAllProviders_def initialRegistry_def Map_values_def)
  show ?thesis
    using resolution_in_registration_order
            [where reg = example_registry and a = "example_annotation ''IMPORTANT NOTICE''"
               and dp = example_default and options = example_highlight and e = "''boom''"]
          resolution_in_registration_order
            [where reg = example_registry and a = "example_annotation ''foo''"
               and dp = example_default and options = example_highlight and e = "''boom''"]
          resolution_in_registration_order
            [where reg = example_broken_registry and a = "example_annotation ''foo''"
               and dp = example_default and options = example_highlight and e = "''boom''"]
          resolution_in_registration_order
            [where reg = "initialRegistry example_default" and a = "example_annotation ''foo''"
               and dp = example_default and options = example_highlight and e = "''boom''"]
    by (simp add: cands cands_broken new yes no boom ids all example_registry_def [symmetric])
qed

text \<open>
  C1 as the specification words it, with priority order, fails: of two active
  providers that both accept the annotation, the one registered first is
  resolved although the other was given the higher priority.
\<close>

theorem resolution_ignores_priority:
  "map_sum id p_id (findProviderForAnnotation example_default example_two_providers
                      (example_annotation ''foo'')) = Inr ''low''
   \<and> p_id (resolve_by_priority example_priority example_default example_two_providers
              (example_annotation ''foo'')) = ''high''"
  by (simp add: findProviderForAnnotation_def resolve_by_priority_def example_two_providers_def
        registerAnnotationProvider_def provider_of_options_def example_low_def example_high_def
        initialRegistry_def example_default_def createDefaultProvider_def getAllProviders_def
        Map_values_def Set_add_def Set_has_def example_priority_def Let_def)

lemma toggle_active_unregisters:
  "providerId \<noteq> ''default'' \<Longrightarrow> isProviderActive providerId reg \<Longrightarrow>
   \<not> Map_has providerId (annotationProviders (snd (toggleProvider providerId reg)))
   \<and> \<not> isProviderActive providerId (snd (toggleProvider providerId reg))"
  by (auto simp: toggleProvider_def isProviderActive_def unregisterAnnotationProvider_def
        Map_has_Map_delete Set_has_def Set_delete_def split: prod.splits)

text \<open>
  C3. Switching an active provider off through \<^verbatim>\<open>toggleProvider\<close> unregisters it: its id
  leaves the registry map as well as the active set, and a second toggle finds
  nothing to switch on again.
\<close>

theorem toggle_off_unregisters:
  "Map_keys (annotationProviders example_registry) = [''default'', ''highlight'']
   \<and> isProviderActive ''highlight'' example_registry
   \<and> Map_keys (annotationProviders (snd (toggleProvider ''highlight'' example_registry))) = [''default'']
   \<and> snd (toggleProvider ''highlight'' (snd (toggleProvider ''highlight'' example_registry)))
       = snd (toggleProvider ''highlight'' example_registry)"
  by (simp add: example_registry_def registerAnnotationProvider_def provider_of_options_def
        example_highlight_def initialRegistry_def Map_keys_def isProviderActive_def Set_has_def
        Set_add_def toggleProvider_def unregisterAnnotationProvider_def Map_has_def Map_delete_def
        Set_delete_def Map_get_def Let_def)

section \<open>Properties of the earlier revision\<close>

text \<open>
  The earlier revision refuses and ignores the same calls of \<^verbatim>\<open>unregister\<close>, and it
  resolves by priority: among the registered providers that accept the
  annotation it returns one of highest priority, and the sorted list keeps the
  providers of equal priority in their registration order.
\<close>

lemma unregister_v1_rejected_or_unknown:
  "unregisterAnnotationProvider_v1 ''default'' providers
     = ([ConsoleWarn ''Cannot unregister the default annotation provider''], providers)
   \<and> (i \<noteq> ''default'' \<and> \<not> Map_has i providers \<longrightarrow>
        unregisterAnnotationProvider_v1 i providers
          = ([ConsoleWarn (''Annotation provider not found: '' @ i)], providers))"
  by (simp add: unregisterAnnotationProvider_v1_def Map_delete_absent)

lemma firstHandler_v1_cases:
  "(firstHandler_v1 a ps = Inr None \<and> (\<forall>p \<in> set ps. p_canHandle p a = Answered False))
   \<or> (\<exists>i<length ps. (\<forall>j<i. p_canHandle (ps ! j) a = Answered False)
         \<and> ((firstHandler_v1 a ps = Inr (Some (ps ! i)) \<and> p_canHandle (ps ! i) a = Answered True)
            \<or> (\<exists>e. firstHandler_v1 a ps = Inl e \<and> p_canHandle (ps ! i) a = CanHandleThrew e)))"
proof (induction ps)
  case Nil
  then show ?case by simp
next
  case (Cons p ps)
  show ?case
  proof (cases "p_canHandle p a")
    case (CanHandleThrew e)
    then have "firstHandler_v1 a (p # ps) = Inl e \<and> p_canHandle ((p # ps) ! 0) a = CanHandleThrew e"
      by simp
    then show ?thesis by (intro disjI2 exI [of _ 0]) auto
  next
    case (Answered b)
    show ?thesis
    proof (cases b)
      case True
      with Answered
      have "firstHandler_v1 a (p # ps) = Inr (Some ((p # ps) ! 0)) \<and> p_canHandle ((p # ps) ! 0) a = Answered True"
        by simp
      then show ?thesis by (intro disjI2 exI [of _ 0]) auto
    next
      case False
      with Answered have step: "firstHandler_v1 a (p # ps) = firstHandler_v1 a ps"
        and no: "p_canHandle p a = Answered False" by simp_all
      from Cons.IH consider
          (none) "firstHandler_v1 a ps = Inr None" "\<forall>p \<in> set ps. p_canHandle p a = Answered False"
        | (some) i where "i < length ps" "\<forall>j<i. p_canHandle (ps ! j) a = Answered False"
            "(firstHandler_v1 a ps = Inr (Some (ps ! i)) \<and> p_canHandle (ps ! i) a = Answered True)
             \<or> (\<exists>e. firstHandler_v1 a ps = Inl e \<and> p_canHandle (ps ! i) a = CanHandleThrew e)"
        by blast
      then show ?thesis
      proof cases
        case none
        with step no show ?thesis by simp
      next
        case (some i)
        have before: "\<forall>j<Suc i. p_canHandle ((p # ps) ! j) a = Answered False"
          using some(2) no by (auto simp: less_Suc_eq_0_disj)
        have len: "Suc i < length (p # ps)" using some(1) by simp
        have res: "(firstHandler_v1 a (p # ps) = Inr (Some ((p # ps) ! Suc i))
                    \<and> p_canHandle ((p # ps) ! Suc i) a = Answered True)
                   \<or> (\<exists>e. firstHandler_v1 a (p # ps) = Inl e
                          \<and> p_canHandle ((p # ps) ! Suc i) a = CanHandleThrew e)"
          using some(3) step by simp
        from len before res show ?thesis by blast
      qed
    qed
  qed
qed

lemma getAllProviders_v1_order:
  "sorted (map (\<lambda>p. - p_priority p) (getAllProviders_v1 providers))
   \<and> set (getAllProviders_v1 providers) = set (Map_values providers)
   \<and> filter (\<lambda>p. p_priority p = k) (getAllProviders_v1 providers)
       = filter (\<lambda>p. p_priority p = k) (Map_values providers)"
proof -
  have "filter (\<lambda>p. - p_priority p = - k) (sort_key (\<lambda>p. - p_priority p) (Map_values providers))
      = filter (\<lambda>p. - p_priority p = - k) (Map_values providers)"
    by (rule sort_key_stable)
  then show ?thesis by (simp add: getAllProviders_v1_def)
qed

lemma resolution_v1_by_priority:
  "((\<forall>p \<in> set (Map_values providers). p_canHandle p a = Answered False) \<longrightarrow>
      findProviderForAnnotation_v1 dp providers a = Inr dp)
   \<and> (findProviderForAnnotation_v1 dp providers a = Inr x
        \<and> (\<exists>p \<in> set (Map_values providers). p_canHandle p a \<noteq> Answered False) \<longrightarrow>
        x \<in> set (Map_values providers)
        \<and> p_canHandle x a = Answered True
        \<and> (\<forall>q \<in> set (Map_values providers).
              p_canHandle q a = Answered True \<longrightarrow> p_priority q \<le> p_priority x))"
proof (intro conjI impI)
  let ?all = "getAllProviders_v1 providers"
  have set_all: "set ?all = set (Map_values providers)"
    using getAllProviders_v1_order by blast
  have srt: "sorted (map (\<lambda>p. - p_priority p) ?all)"
    using getAllProviders_v1_order by blast
  note cases = firstHandler_v1_cases [of a ?all]
  {
    assume "\<forall>p \<in> set (Map_values providers). p_canHandle p a = Answered False"
    then have "\<forall>p \<in> set ?all. p_canHandle p a = Answered False"
      by (simp add: set_all)
    with cases have "firstHandler_v1 a ?all = Inr None"
      by (metis canHandle_outcome.distinct(1) canHandle_outcome.inject(1) nth_mem)
    then show "findProviderForAnnotation_v1 dp providers a = Inr dp"
      by (simp add: findProviderForAnnotation_v1_def)
  }
  assume a: "findProviderForAnnotation_v1 dp providers a = Inr x
        \<and> (\<exists>p \<in> set (Map_values providers). p_canHandle p a \<noteq> Answered False)"
  then have not_none: "\<not> (\<forall>p \<in> set ?all. p_canHandle p a = Answered False)"
    by (simp add: set_all)
  from a have not_thrown: "\<forall>e. firstHandler_v1 a ?all \<noteq> Inl e"
    by (auto simp: findProviderForAnnotation_v1_def)
  from cases not_none not_thrown obtain i where i: "i < length ?all"
    "\<forall>j<i. p_canHandle (?all ! j) a = Answered False"
    "firstHandler_v1 a ?all = Inr (Some (?all ! i))" "p_canHandle (?all ! i) a = Answered True"
    by blast
  from a i(3) have res: "x = ?all ! i"
    by (simp add: findProviderForAnnotation_v1_def)
  show "x \<in> set (Map_values providers)"
    unfolding res using i(1) set_all nth_mem by blast
  show "p_canHandle x a = Answered True"
    unfolding res by (rule i(4))
  show "\<forall>q \<in> set (Map_values providers). p_canHandle q a = Answered True \<longrightarrow> p_priority q \<le> p_priority x"
  proof (intro ballI impI)
    fix q assume q: "q \<in> set (Map_values providers)" "p_canHandle q a = Answered True"
    then obtain k where k: "k < length ?all" "?all ! k = q"
      using set_all by (metis in_set_conv_nth)
    have "i \<le> k"
    proof (rule ccontr)
      assume "\<not> i \<le> k"
      then have "p_canHandle (?all ! k) a = Answered False" using i(2) by simp
      with q(2) k(2) show False by simp
    qed
    then have "map (\<lambda>p. - p_priority p) ?all ! i \<le> map (\<lambda>p. - p_priority p) ?all ! k"
      using srt k(1) by (intro sorted_nth_mono) simp_all
    then show "p_priority q \<le> p_priority x"
      unfolding res using i(1) k by simp
  qed
qed

section \<open>Properties of the coordinate conversion\<close>

lemma map_upt_shift: "map f [0..<Suc n] = f 0 # map (\<lambda>i. f (Suc i)) [0..<n]"
  by (simp only: map_upt_Suc)

lemma at_index_nat: "at_index xs (int n) = (if n < length xs then xs ! n else NaN)"
  by (simp add: at_index_def)

lemma at_index_shift_even: "at_index (x # y # r) (2 * int (Suc i)) = at_index r (2 * int i)"
proof -
  have a: "2 * int (Suc i) = int (Suc (Suc (2 * i)))" by simp
  have b: "2 * int i = int (2 * i)" by simp
  have "at_index (x # y # r) (int (Suc (Suc (2 * i)))) = at_index r (int (2 * i))"
    unfolding at_index_nat by simp
  then show ?thesis unfolding a b .
qed

lemma at_index_shift_odd: "at_index (x # y # r) (2 * int (Suc i) + 1) = at_index r (2 * int i + 1)"
proof -
  have a: "2 * int (Suc i) + 1 = int (Suc (Suc (2 * i + 1)))" by simp
  have b: "2 * int i + 1 = int (2 * i + 1)" by simp
  have "at_index (x # y # r) (int (Suc (Suc (2 * i + 1)))) = at_index r (int (2 * i + 1))"
    unfolding at_index_nat by simp
  then show ?thesis unfolding a b .
qed

lemma cc_general:
  "convertCoordinates r d =
     map (\<lambda>i. (num_mul (at_index r (2 * int i)) d, num_mul (at_index r (2 * int i + 1)) d))
         [0..<(length r + 1) div 2]"
proof (induction r d rule: convertCoordinates.induct)
  case (1 d)
  show ?case by simp
next
  case (2 x d)
  show ?case by (simp add: at_index_def)
next
  case (3 x y rest d)
  have len: "(length (x # y # rest) + 1) div 2 = Suc ((length rest + 1) div 2)" by simp
  have head: "at_index (x # y # rest) (2 * int 0) = x" "at_index (x # y # rest) (2 * int 0 + 1) = y"
    by (simp_all add: at_index_def)
  show ?case
    unfolding len map_upt_shift at_index_shift_even at_index_shift_odd head
    using 3 by simp
qed

text \<open>
  C4. \<^verbatim>\<open>convertCoordinates\<close> is a uniform scale: point \<open>i\<close> of the result is the pair
  of entries \<open>2i\<close> and \<open>2i+1\<close> of the flat list, each multiplied by the effective
  DPI, and nothing else is added or mixed in. On a list of finite coordinates of
  even length the result is the list of the scaled pairs. The statement holds
  for every scale, positive or not.
\<close>

theorem convertCoordinates_uniform_scale:
  "convertCoordinates r d =
     map (\<lambda>i. (num_mul (at_index r (2 * int i)) d, num_mul (at_index r (2 * int i + 1)) d))
         [0..<(length r + 1) div 2]
   \<and> (even (length rs) \<longrightarrow>
        convertCoordinates (map Num rs) (Num s) =
          map (\<lambda>i. (Num (rs ! (2 * i) * s), Num (rs ! (2 * i + 1) * s))) [0..<length rs div 2])"
proof (intro conjI impI)
  show "convertCoordinates r d =
     map (\<lambda>i. (num_mul (at_index r (2 * int i)) d, num_mul (at_index r (2 * int i + 1)) d))
         [0..<(length r + 1) div 2]"
    by (rule cc_general)
  assume ev: "even (length rs)"
  then have len: "(length (map Num rs) + 1) div 2 = length rs div 2" by auto
  have pt: "(num_mul (at_index (map Num rs) (2 * int i)) (Num s),
             num_mul (at_index (map Num rs) (2 * int i + 1)) (Num s))
            = (Num (rs ! (2 * i) * s), Num (rs ! (2 * i + 1) * s))"
    if "i < length rs div 2" for i
  proof -
    from that ev have lt: "2 * i < length rs" "2 * i + 1 < length rs" by auto
    have a: "2 * int i = int (2 * i)" and b: "2 * int i + 1 = int (2 * i + 1)" by simp_all
    have "at_index (map Num rs) (2 * int i) = Num (rs ! (2 * i))"
      unfolding a at_index_nat using lt by simp
    moreover have "at_index (map Num rs) (2 * int i + 1) = Num (rs ! (2 * i + 1))"
      unfolding b at_index_nat using lt by simp
    ultimately show ?thesis by simp
  qed
  show "convertCoordinates (map Num rs) (Num s) =
          map (\<lambda>i. (Num (rs ! (2 * i) * s), Num (rs ! (2 * i + 1) * s))) [0..<length rs div 2]"
    unfolding cc_general [of "map Num rs" "Num s"] len
    by (rule map_cong) (use pt in auto)
qed

theorem convertCoordinates_uniform_scale_witness:
  "even (length [0, 0, 1, 0, 1, 1, 0, 1 :: real])
   \<and> convertCoordinates (map Num [0, 0, 1, 0, 1, 1, 0, 1]) (Num 96)
       = [(Num 0, Num 0), (Num 96, Num 0), (Num 96, Num 96), (Num 0, Num 96)]"
  using convertCoordinates_uniform_scale [of "[]" NaN "[0, 0, 1, 0, 1, 1, 0, 1]" 96]
  by simp

lemma num_mul_assoc: "num_mul (num_mul x a) b = num_mul x (num_mul a b)"
  by (cases x; cases a; cases b) simp_all

lemma convertCoordinates_twice:
  "convertCoordinates (flattenPoints (convertCoordinates r z1)) z2
     = convertCoordinates r (num_mul z1 z2)"
  by (induction r z1 rule: convertCoordinates.induct) (simp_all add: num_mul_assoc)

lemma convertCoordinates_with_exact: "convertCoordinates_with num_mul r d = convertCoordinates r d"
  by (induction r d rule: convertCoordinates.induct) simp_all

lemma flatten_convert_with:
  "even (length xs) \<Longrightarrow>
   flattenPoints (convertCoordinates_with mul xs d) = map (\<lambda>x. mul x d) xs"
  by (induction mul xs d rule: convertCoordinates_with.induct) simp_all

lemma rounded_twice_left:
  fixes f :: "real \<Rightarrow> real \<Rightarrow> real"
  assumes f: "\<And>a b. \<bar>f a b - a * b\<bar> \<le> u * \<bar>a * b\<bar>" and u: "0 \<le> u"
  shows "\<bar>f (f x y) z - x * y * z\<bar> \<le> (2 * u + u * u) * \<bar>x * y * z\<bar>"
proof -
  define p where "p = f x y"
  have p1: "\<bar>p - x * y\<bar> \<le> u * \<bar>x * y\<bar>" unfolding p_def by (rule f)
  have "\<bar>p\<bar> \<le> \<bar>p - x * y\<bar> + \<bar>x * y\<bar>" by simp
  with p1 have p2: "\<bar>p\<bar> \<le> (1 + u) * \<bar>x * y\<bar>" by (simp add: algebra_simps)
  have "\<bar>f p z - p * z\<bar> \<le> u * \<bar>p * z\<bar>" by (rule f)
  also have "\<dots> = u * (\<bar>p\<bar> * \<bar>z\<bar>)" by (simp add: abs_mult)
  also have "\<dots> \<le> u * (((1 + u) * \<bar>x * y\<bar>) * \<bar>z\<bar>)"
    by (intro mult_left_mono mult_right_mono p2 u) simp
  finally have a: "\<bar>f p z - p * z\<bar> \<le> u * (1 + u) * \<bar>x * y * z\<bar>"
    by (simp add: abs_mult algebra_simps)
  have "\<bar>p * z - x * y * z\<bar> = \<bar>p - x * y\<bar> * \<bar>z\<bar>"
    by (simp add: abs_mult [symmetric] algebra_simps)
  also have "\<dots> \<le> (u * \<bar>x * y\<bar>) * \<bar>z\<bar>"
    by (intro mult_right_mono p1) simp
  finally have b: "\<bar>p * z - x * y * z\<bar> \<le> u * \<bar>x * y * z\<bar>"
    by (simp add: abs_mult algebra_simps)
  have "\<bar>f p z - x * y * z\<bar> \<le> \<bar>f p z - p * z\<bar> + \<bar>p * z - x * y * z\<bar>" by simp
  with a b have "\<bar>f p z - x * y * z\<bar> \<le> u * (1 + u) * \<bar>x * y * z\<bar> + u * \<bar>x * y * z\<bar>"
    by linarith
  then show ?thesis unfolding p_def by (simp add: algebra_simps)
qed

lemma rounded_twice_right:
  fixes f :: "real \<Rightarrow> real \<Rightarrow> real"
  assumes f: "\<And>a b. \<bar>f a b - a * b\<bar> \<le> u * \<bar>a * b\<bar>" and u: "0 \<le> u"
  shows "\<bar>f x (f y z) - x * y * z\<bar> \<le> (2 * u + u * u) * \<bar>x * y * z\<bar>"
proof -
  define q where "q = f y z"
  have q1: "\<bar>q - y * z\<bar> \<le> u * \<bar>y * z\<bar>" unfolding q_def by (rule f)
  have "\<bar>q\<bar> \<le> \<bar>q - y * z\<bar> + \<bar>y * z\<bar>" by simp
  with q1 have q2: "\<bar>q\<bar> \<le> (1 + u) * \<bar>y * z\<bar>" by (simp add: algebra_simps)
  have "\<bar>f x q - x * q\<bar> \<le> u * \<bar>x * q\<bar>" by (rule f)
  also have "\<dots> = u * (\<bar>x\<bar> * \<bar>q\<bar>)" by (simp add: abs_mult)
  also have "\<dots> \<le> u * (\<bar>x\<bar> * ((1 + u) * \<bar>y * z\<bar>))"
    by (intro mult_left_mono q2 u) simp
  finally have a: "\<bar>f x q - x * q\<bar> \<le> u * (1 + u) * \<bar>x * y * z\<bar>"
    by (simp add: abs_mult algebra_simps)
  have "\<bar>x * q - x * y * z\<bar> = \<bar>x\<bar> * \<bar>q - y * z\<bar>"
    by (simp add: abs_mult [symmetric] algebra_simps)
  also have "\<dots> \<le> \<bar>x\<bar> * (u * \<bar>y * z\<bar>)"
    by (intro mult_left_mono q1) simp
  finally have b: "\<bar>x * q - x * y * z\<bar> \<le> u * \<bar>x * y * z\<bar>"
    by (simp add: abs_mult algebra_simps)
  have "\<bar>f x q - x * y * z\<bar> \<le> \<bar>f x q - x * q\<bar> + \<bar>x * q - x * y * z\<bar>" by simp
  with a b have "\<bar>f x q - x * y * z\<bar> \<le> u * (1 + u) * \<bar>x * y * z\<bar> + u * \<bar>x * y * z\<bar>"
    by linarith
  then show ?thesis unfolding q_def by (simp add: algebra_simps)
qed

lemma rounded_composition:
  fixes f :: "real \<Rightarrow> real \<Rightarrow> real"
  assumes f: "\<And>a b. \<bar>f a b - a * b\<bar> \<le> u * \<bar>a * b\<bar>" and u: "0 \<le> u"
  shows "\<bar>f (f x y) z - f x (f y z)\<bar> \<le> (4 * u + 2 * u * u) * \<bar>x * y * z\<bar>"
proof -
  have "\<bar>f (f x y) z - f x (f y z)\<bar>
          \<le> \<bar>f (f x y) z - x * y * z\<bar> + \<bar>f x (f y z) - x * y * z\<bar>" by simp
  with rounded_twice_left [OF f u, of x y z] rounded_twice_right [OF f u, of x y z]
  have "\<bar>f (f x y) z - f x (f y z)\<bar> \<le> 2 * ((2 * u + u * u) * \<bar>x * y * z\<bar>)" by linarith
  then show ?thesis by (simp add: algebra_simps)
qed

text \<open>
  C5. Converting a polygon with factor \<open>z1\<close> and the result again with factor \<open>z2\<close>
  is converting it once with the product of the factors. With exact products
  the two results are equal. With any product \<open>mul\<close> that rounds with relative
  error at most \<open>u\<close> (for doubles \<open>u\<close> is \<open>2\<close> to the power \<open>-53\<close>, away from
  overflow and underflow), each coordinate of the one result differs from the
  same coordinate of the other by at most \<open>4u + 2u\<^sup>2\<close> times the size of the
  exactly scaled coordinate.
\<close>

theorem transform_composition:
  "convertCoordinates (flattenPoints (convertCoordinates r z1)) z2
     = convertCoordinates r (num_mul z1 z2)
   \<and> ((\<forall>a b. \<exists>c. mul (Num a) (Num b) = Num c \<and> \<bar>c - a * b\<bar> \<le> u * \<bar>a * b\<bar>)
        \<and> 0 \<le> u \<and> even (length rs)
      \<longrightarrow> (\<forall>i<length rs. \<exists>c1 c2.
             flattenPoints (convertCoordinates_with mul
               (flattenPoints (convertCoordinates_with mul (map Num rs) (Num s1))) (Num s2)) ! i
               = Num c1
           \<and> flattenPoints (convertCoordinates_with mul (map Num rs) (mul (Num s1) (Num s2))) ! i
               = Num c2
           \<and> \<bar>c1 - c2\<bar> \<le> (4 * u + 2 * u * u) * \<bar>rs ! i * s1 * s2\<bar>))"
proof (intro conjI impI allI)
  show "convertCoordinates (flattenPoints (convertCoordinates r z1)) z2
     = convertCoordinates r (num_mul z1 z2)"
    by (rule convertCoordinates_twice)
next
  fix i
  assume hyp: "(\<forall>a b. \<exists>c. mul (Num a) (Num b) = Num c \<and> \<bar>c - a * b\<bar> \<le> u * \<bar>a * b\<bar>)
        \<and> 0 \<le> u \<and> even (length rs)"
    and i: "i < length rs"
  from hyp have "\<forall>a. \<exists>g. \<forall>b. mul (Num a) (Num b) = Num (g b) \<and> \<bar>g b - a * b\<bar> \<le> u * \<bar>a * b\<bar>"
    by (intro allI choice) blast
  then obtain f where f: "\<And>a b. mul (Num a) (Num b) = Num (f a b)"
    and err: "\<And>a b. \<bar>f a b - a * b\<bar> \<le> u * \<bar>a * b\<bar>"
    using choice [of "\<lambda>a g. \<forall>b. mul (Num a) (Num b) = Num (g b) \<and> \<bar>g b - a * b\<bar> \<le> u * \<bar>a * b\<bar>"]
    by blast
  from hyp have u: "0 \<le> u" and ev: "even (length rs)" by simp_all
  have once: "flattenPoints (convertCoordinates_with mul (map Num rs) d) = map (\<lambda>x. mul x d) (map Num rs)"
    for d using ev by (intro flatten_convert_with) simp
  have twice: "flattenPoints (convertCoordinates_with mul
               (flattenPoints (convertCoordinates_with mul (map Num rs) (Num s1))) (Num s2))
             = map (\<lambda>x. mul x (Num s2)) (map (\<lambda>x. mul x (Num s1)) (map Num rs))"
    unfolding once using ev by (intro flatten_convert_with) simp
  have c1: "flattenPoints (convertCoordinates_with mul
               (flattenPoints (convertCoordinates_with mul (map Num rs) (Num s1))) (Num s2)) ! i
             = Num (f (f (rs ! i) s1) s2)"
    unfolding twice using i by (simp add: f)
  have c2: "flattenPoints (convertCoordinates_with mul (map Num rs) (mul (Num s1) (Num s2))) ! i
             = Num (f (rs ! i) (f s1 s2))"
    unfolding once using i by (simp add: f)
  have "\<bar>f (f (rs ! i) s1) s2 - f (rs ! i) (f s1 s2)\<bar> \<le> (4 * u + 2 * u * u) * \<bar>rs ! i * s1 * s2\<bar>"
    using err u by (rule rounded_composition)
  with c1 c2 show "\<exists>c1 c2.
             flattenPoints (convertCoordinates_with mul
               (flattenPoints (convertCoordinates_with mul (map Num rs) (Num s1))) (Num s2)) ! i
               = Num c1
           \<and> flattenPoints (convertCoordinates_with mul (map Num rs) (mul (Num s1) (Num s2))) ! i
               = Num c2
           \<and> \<bar>c1 - c2\<bar> \<le> (4 * u + 2 * u * u) * \<bar>rs ! i * s1 * s2\<bar>"
    by blast
qed

lemma example_rounded_mul_error:
  "\<exists>c. example_rounded_mul (Num a) (Num b) = Num c \<and> \<bar>c - a * b\<bar> \<le> (1 / 1000) * \<bar>a * b\<bar>"
proof (cases "\<bar>a\<bar> \<le> 2")
  case True
  then show ?thesis by simp
next
  case False
  have "a * b * (1001 / 1000) - a * b = (a * b) * (1 / 1000)" by (simp add: algebra_simps)
  then have "\<bar>a * b * (1001 / 1000) - a * b\<bar> = (1 / 1000) * \<bar>a * b\<bar>"
    by (simp add: abs_mult)
  moreover have "example_rounded_mul (Num a) (Num b) = Num (a * b * (1001 / 1000))"
    using False by simp
  ultimately show ?thesis by (intro exI [of _ "a * b * (1001 / 1000)"]) (simp only: order_refl simp_thms)
qed

theorem transform_composition_witness:
  "(\<forall>a b. \<exists>c. example_rounded_mul (Num a) (Num b) = Num c
              \<and> \<bar>c - a * b\<bar> \<le> (1 / 1000) * \<bar>a * b\<bar>)
   \<and> (0::real) \<le> 1 / 1000
   \<and> even (length [4, 0, 1, 0, 1, 1, 0, 1 :: real])
   \<and> flattenPoints (convertCoordinates_with example_rounded_mul
        (flattenPoints (convertCoordinates_with example_rounded_mul
           (map Num [4, 0, 1, 0, 1, 1, 0, 1]) (Num 2))) (Num 3)) ! 0 = Num (3006003 / 125000)
   \<and> flattenPoints (convertCoordinates_with example_rounded_mul
        (map Num [4, 0, 1, 0, 1, 1, 0, 1]) (example_rounded_mul (Num 2) (Num 3))) ! 0
       = Num (3003 / 125)
   \<and> (\<exists>c1 c2.
         flattenPoints (convertCoordinates_with example_rounded_mul
           (flattenPoints (convertCoordinates_with example_rounded_mul
              (map Num [4, 0, 1, 0, 1, 1, 0, 1]) (Num 2))) (Num 3)) ! 0 = Num c1
       \<and> flattenPoints (convertCoordinates_with example_rounded_mul
           (map Num [4, 0, 1, 0, 1, 1, 0, 1]) (example_rounded_mul (Num 2) (Num 3))) ! 0 = Num c2
       \<and> \<bar>c1 - c2\<bar> \<le> (4 * (1 / 1000) + 2 * (1 / 1000) * (1 / 1000))
                           * \<bar>[4, 0, 1, 0, 1, 1, 0, 1] ! 0 * 2 * 3\<bar>)"
proof -
  have hyp: "\<forall>a b. \<exists>c. example_rounded_mul (Num a) (Num b) = Num c
              \<and> \<bar>c - a * b\<bar> \<le> (1 / 1000) * \<bar>a * b\<bar>"
    using example_rounded_mul_error by blast
  have u: "(0::real) \<le> 1 / 1000" by simp
  have ev: "even (length [4, 0, 1, 0, 1, 1, 0, 1 :: real])" by simp
  have i: "0 < length [4, 0, 1, 0, 1, 1, 0, 1 :: real]" by simp
  have inst: "\<exists>c1 c2.
         flattenPoints (convertCoordinates_with example_rounded_mul
           (flattenPoints (convertCoordinates_with example_rounded_mul
              (map Num [4, 0, 1, 0, 1, 1, 0, 1]) (Num 2))) (Num 3)) ! 0 = Num c1
       \<and> flattenPoints (convertCoordinates_with example_rounded_mul
           (map Num [4, 0, 1, 0, 1, 1, 0, 1]) (example_rounded_mul (Num 2) (Num 3))) ! 0 = Num c2
       \<and> \<bar>c1 - c2\<bar> \<le> (4 * (1 / 1000) + 2 * (1 / 1000) * (1 / 1000))
                           * \<bar>[4, 0, 1, 0, 1, 1, 0, 1] ! 0 * 2 * 3\<bar>"
    using transform_composition
            [where mul = example_rounded_mul and u = "1 / 1000"
               and rs = "[4, 0, 1, 0, 1, 1, 0, 1]" and ?s1.0 = 2 and ?s2.0 = 3
               and r = "[]" and ?z1.0 = NaN and ?z2.0 = NaN] hyp u ev i
    by blast
  have v1: "flattenPoints (convertCoordinates_with example_rounded_mul
        (flattenPoints (convertCoordinates_with example_rounded_mul
           (map Num [4, 0, 1, 0, 1, 1, 0, 1]) (Num 2))) (Num 3)) ! 0 = Num (3006003 / 125000)"
    by simp
  have v2: "flattenPoints (convertCoordinates_with example_rounded_mul
        (map Num [4, 0, 1, 0, 1, 1, 0, 1]) (example_rounded_mul (Num 2) (Num 3))) ! 0
       = Num (3003 / 125)"
    by simp
  from hyp u ev v1 v2 inst show ?thesis by (intro conjI)
qed

section \<open>Properties of the hit test\<close>

lemma hit_first:
  "i < length paths \<Longrightarrow> isPointInPath (fst (snd (paths ! i))) x y \<Longrightarrow>
   (\<forall>j<i. \<not> isPointInPath (fst (snd (paths ! j))) x y) \<Longrightarrow>
   getAnnotationAtPoint isPointInPath paths x y = Some (snd (snd (paths ! i)))"
proof (induction paths arbitrary: i)
  case Nil
  then show ?case by simp
next
  case (Cons e paths)
  obtain k p a where e: "e = (k, (p, a))" by (cases e) auto
  show ?case
  proof (cases i)
    case 0
    with Cons.prems show ?thesis by (simp add: e)
  next
    case (Suc n)
    from Cons.prems Suc have "\<not> isPointInPath p x y" by (auto simp: e)
    moreover have "getAnnotationAtPoint isPointInPath paths x y = Some (snd (snd (paths ! n)))"
      using Cons.prems Suc by (intro Cons.IH) auto
    ultimately show ?thesis by (simp add: e Suc)
  qed
qed

lemma hit_none:
  "(\<forall>e \<in> set paths. \<not> isPointInPath (fst (snd e)) x y) \<Longrightarrow>
   getAnnotationAtPoint isPointInPath paths x y = None"
  by (induction paths) auto

lemma hit_some_D:
  "getAnnotationAtPoint isPointInPath paths x y = Some a \<Longrightarrow>
   \<exists>i<length paths. a = snd (snd (paths ! i)) \<and> isPointInPath (fst (snd (paths ! i))) x y
      \<and> (\<forall>j<i. \<not> isPointInPath (fst (snd (paths ! j))) x y)"
proof (induction paths)
  case Nil
  then show ?case by simp
next
  case (Cons e paths)
  obtain k p a' where e: "e = (k, (p, a'))" by (cases e) auto
  show ?case
  proof (cases "isPointInPath p x y")
    case True
    with Cons.prems have "a = a'" by (simp add: e)
    with True show ?thesis by (intro exI[of _ 0]) (simp add: e)
  next
    case False
    with Cons.prems have "getAnnotationAtPoint isPointInPath paths x y = Some a" by (simp add: e)
    from Cons.IH[OF this] obtain i where i: "i < length paths" "a = snd (snd (paths ! i))"
      "isPointInPath (fst (snd (paths ! i))) x y" "\<forall>j<i. \<not> isPointInPath (fst (snd (paths ! j))) x y"
      by blast
    show ?thesis
    proof (intro exI[of _ "Suc i"] conjI allI impI)
      fix j assume "j < Suc i"
      then show "\<not> isPointInPath (fst (snd ((e # paths) ! j))) x y"
        using i(4) False by (cases j) (auto simp: e)
    qed (use i in auto)
  qed
qed

lemma sq_in: "0 < px \<Longrightarrow> px < 96 \<Longrightarrow> 0 < py \<Longrightarrow> py < 96 \<Longrightarrow>
  rayCastingContains (createAnnotationPath (rect (example_annotation t)) (Num 96)) (Num px) (Num py)"
  by (simp add: example_annotation_def rayCastingContains_def createAnnotationPath_def isPointInPolygon_def at_index_def)

lemma sq_out: "px < 0 \<or> 96 < px \<or> py < 0 \<or> 96 < py \<Longrightarrow>
  \<not> rayCastingContains (createAnnotationPath (rect (example_annotation t)) (Num 96)) (Num px) (Num py)"
  by (auto simp add: example_annotation_def rayCastingContains_def createAnnotationPath_def isPointInPolygon_def at_index_def)

lemma example_hit_inside:
  "0 < px \<Longrightarrow> px < 96 \<Longrightarrow> 0 < py \<Longrightarrow> py < 96 \<Longrightarrow>
   hitAt rayCastingContains example_paths (Num px, Num py) = Some (example_annotation ''x'')"
  by (simp add: hitAt_def example_paths_eq rayCastingContains_def isPointInPolygon_def at_index_def)

lemma example_hit_outside:
  "px < 0 \<or> 96 < px \<or> py < 0 \<or> 96 < py \<Longrightarrow>
   hitAt rayCastingContains example_paths (Num px, Num py) = None"
  by (auto simp add: hitAt_def example_paths_eq rayCastingContains_def isPointInPolygon_def at_index_def)

text \<open>
  C6. The hit test returns the annotation of the first entry, in insertion order,
  whose path contains the point according to the containment test of the canvas,
  and nothing when no stored path contains it. For the example square with flat
  list \<open>[0,0,1,0,1,1,0,1]\<close> at effective DPI 96 the corners are \<open>(0,0)\<close>, \<open>(96,0)\<close>,
  \<open>(96,96)\<close>, \<open>(0,96)\<close>; with the viewer's ray-casting test as containment, every
  point strictly inside the square hits its annotation and every point outside
  the closed square misses, so \<open>(48,48)\<close> hits and \<open>(200,200)\<close> misses.
\<close>

theorem hit_test_first_containing:
  "(\<forall>i<length paths.
      isPointInPath (fst (snd (paths ! i))) x y
      \<and> (\<forall>j<i. \<not> isPointInPath (fst (snd (paths ! j))) x y)
      \<longrightarrow> getAnnotationAtPoint isPointInPath paths x y = Some (snd (snd (paths ! i))))
   \<and> ((\<forall>e\<in>set paths. \<not> isPointInPath (fst (snd e)) x y)
        \<longrightarrow> getAnnotationAtPoint isPointInPath paths x y = None)
   \<and> convertCoordinates (rect (example_annotation t)) (Num 96)
       = [(Num 0, Num 0), (Num 96, Num 0), (Num 96, Num 96), (Num 0, Num 96)]
   \<and> (0 < px \<and> px < 96 \<and> 0 < py \<and> py < 96 \<longrightarrow>
        getAnnotationAtPoint rayCastingContains
          (drawAnnotations [example_annotation t] 0 (Num 96)) (Num px) (Num py)
        = Some (example_annotation t))
   \<and> (px < 0 \<or> 96 < px \<or> py < 0 \<or> 96 < py \<longrightarrow>
        getAnnotationAtPoint rayCastingContains
          (drawAnnotations [example_annotation t] 0 (Num 96)) (Num px) (Num py)
        = None)"
proof (intro conjI allI impI)
  fix i
  assume "i < length paths"
    and "isPointInPath (fst (snd (paths ! i))) x y
         \<and> (\<forall>j<i. \<not> isPointInPath (fst (snd (paths ! j))) x y)"
  then show "getAnnotationAtPoint isPointInPath paths x y = Some (snd (snd (paths ! i)))"
    by (intro hit_first) auto
next
  assume "\<forall>e\<in>set paths. \<not> isPointInPath (fst (snd e)) x y"
  then show "getAnnotationAtPoint isPointInPath paths x y = None"
    by (rule hit_none)
next
  show "convertCoordinates (rect (example_annotation t)) (Num 96)
       = [(Num 0, Num 0), (Num 96, Num 0), (Num 96, Num 96), (Num 0, Num 96)]"
    by (simp add: example_annotation_def)
next
  assume "0 < px \<and> px < 96 \<and> 0 < py \<and> py < 96"
  then show "getAnnotationAtPoint rayCastingContains
          (drawAnnotations [example_annotation t] 0 (Num 96)) (Num px) (Num py)
        = Some (example_annotation t)"
    unfolding example_index by (simp add: sq_in)
next
  assume "px < 0 \<or> 96 < px \<or> py < 0 \<or> 96 < py"
  then show "getAnnotationAtPoint rayCastingContains
          (drawAnnotations [example_annotation t] 0 (Num 96)) (Num px) (Num py)
        = None"
    unfolding example_index by (simp add: sq_out)
qed

theorem hit_test_first_containing_witness:
  "(0::real) < 48 \<and> (48::real) < 96 \<and> (96::real) < 200
   \<and> rayCastingContains
        (fst (snd (drawAnnotations [example_annotation ''x''] 0 (Num 96) ! 0))) (Num 48) (Num 48)
   \<and> getAnnotationAtPoint rayCastingContains
        (drawAnnotations [example_annotation ''x''] 0 (Num 96)) (Num 48) (Num 48)
       = Some (example_annotation ''x'')
   \<and> getAnnotationAtPoint rayCastingContains
        (drawAnnotations [example_annotation ''x''] 0 (Num 96)) (Num 200) (Num 200) = None"
  using hit_test_first_containing
          [where paths = "drawAnnotations [example_annotation ''x''] 0 (Num 96)"
             and isPointInPath = rayCastingContains and x = "Num 48" and y = "Num 48"
             and t = "''x''" and px = 48 and py = 48]
        hit_test_first_containing
          [where paths = "drawAnnotations [example_annotation ''x''] 0 (Num 96)"
             and isPointInPath = rayCastingContains and x = "Num 200" and y = "Num 200"
             and t = "''x''" and px = 200 and py = 200]
        sq_in [of 48 48 "''x''"]
  by (simp add: example_index)

section \<open>Properties of rendering\<close>

lemma thrown_returns [simp]: "thrown (returns h) = None"
  by (simp add: returns_def)

lemma thrown_emit [simp]: "thrown (emit e h) = None"
  by (simp add: emit_def)

lemma thrown_raises [simp]: "thrown (raises e h) = Some e"
  by (simp add: raises_def)

lemma thrown_tryCatch:
  "(\<And>e h'. thrown (handler e h') = None) \<Longrightarrow> thrown (tryCatch body handler) = None"
  by (simp add: tryCatch_def Let_def split: option.splits)

lemma thrown_andThen:
  "thrown first = None \<Longrightarrow> (\<And>h'. thrown (next h') = None) \<Longrightarrow> thrown (andThen first next) = None"
  by (simp add: andThen_def Let_def split: option.splits)

lemma thrown_renderWithFallback:
  "thrown (renderWithFallback dp dis provider context h) = None"
  unfolding renderWithFallback_def
  by (intro thrown_tryCatch thrown_andThen) (simp_all add: thrown_tryCatch)

lemma events_renderWithFallback:
  "events (renderWithFallback dp dis provider context h)
     = RenderCall (p_id provider)
       # (case p_render provider context of
            Returned \<Rightarrow> []
          | Threw e \<Rightarrow>
              Console (ConsoleWarn (''Error rendering annotation with provider '' @ p_id provider @ '':''))
              # (if p_id provider \<noteq> ''default'' \<and> \<not> dis
                 then RenderCall (p_id dp)
                      # (case p_render dp context of
                           Returned \<Rightarrow> []
                         | Threw fallbackError \<Rightarrow>
                             [Console (ConsoleError ''Default provider also failed:'')])
                 else []))"
  by (simp add: renderWithFallback_def tryCatch_def andThen_def callRender_def emit_def
        returns_def Let_def split: render_outcome.splits)

lemma simpleHtmlRender_result:
  "thrown (fst (simpleHtmlRender context annotation h)) = None
   \<and> set (events (fst (simpleHtmlRender context annotation h)))
       \<subseteq> {Console (ConsoleWarn ''[Simple HTML Render] Error creating overlay:'')}
   \<and> (snd (simpleHtmlRender context annotation h) \<longrightarrow>
        events (fst (simpleHtmlRender context annotation h)) = [])"
  by (simp add: simpleHtmlRender_def returns_def emit_def split: option.splits html_outcome.splits)

lemma drawAnnotationText_guarded:
  assumes "content annotation \<noteq> []" and "\<not> trim_is_empty (content annotation)"
    and "convertCoordinates (rect annotation) dpi = p # ps" and "2 \<le> length ps"
    and "\<not> num_le (width (boundingRect p ps)) (Num 0)"
    and "\<not> num_le (height (boundingRect p ps)) (Num 0)"
    and "simpleHtmlRender \<lparr> ctx_annotation = annotation, ctx_effectiveDpi = dpi,
                            ctx_pageNumber = pn, ctx_rect = boundingRect p ps \<rparr> annotation h
           = (simple, returned)"
  shows "drawAnnotationText dp reg dis annotation dpi pn h
     = (if returned then simple
        else andThen simple
               (\<lambda>h1. case findProviderForAnnotation dp reg annotation of
                        Inl error \<Rightarrow> raises error h1
                      | Inr provider \<Rightarrow>
                          renderWithFallback dp dis provider
                            \<lparr> ctx_annotation = annotation, ctx_effectiveDpi = dpi,
                              ctx_pageNumber = pn, ctx_rect = boundingRect p ps \<rparr> h1))"
  using assms by (simp add: drawAnnotationText_def Let_def)

lemma drawAnnotationText_resolved:
  assumes "content annotation \<noteq> []" and "\<not> trim_is_empty (content annotation)"
    and "convertCoordinates (rect annotation) dpi = p # ps" and "2 \<le> length ps"
    and "\<not> num_le (width (boundingRect p ps)) (Num 0)"
    and "\<not> num_le (height (boundingRect p ps)) (Num 0)"
    and "simpleHtmlRender \<lparr> ctx_annotation = annotation, ctx_effectiveDpi = dpi,
                            ctx_pageNumber = pn, ctx_rect = boundingRect p ps \<rparr> annotation h
           = (simple, False)"
    and "findProviderForAnnotation dp reg annotation = Inr provider"
  shows "thrown (drawAnnotationText dp reg dis annotation dpi pn h) = None"
    and "events (drawAnnotationText dp reg dis annotation dpi pn h)
           = events simple
             @ events (renderWithFallback dp dis provider
                         \<lparr> ctx_annotation = annotation, ctx_effectiveDpi = dpi,
                           ctx_pageNumber = pn, ctx_rect = boundingRect p ps \<rparr> h)"
proof -
  let ?rc = "\<lparr> ctx_annotation = annotation, ctx_effectiveDpi = dpi,
               ctx_pageNumber = pn, ctx_rect = boundingRect p ps \<rparr>"
  have eq: "drawAnnotationText dp reg dis annotation dpi pn h
      = andThen simple (\<lambda>h1. renderWithFallback dp dis provider ?rc h1)"
    using drawAnnotationText_guarded [OF assms(1-7), of dp reg dis] assms(8) by simp
  have simple: "thrown simple = None"
    using simpleHtmlRender_result [of ?rc annotation h] assms(7) by simp
  show "thrown (drawAnnotationText dp reg dis annotation dpi pn h) = None"
    unfolding eq by (intro thrown_andThen simple thrown_renderWithFallback)
  show "events (drawAnnotationText dp reg dis annotation dpi pn h)
           = events simple @ events (renderWithFallback dp dis provider ?rc h)"
    unfolding eq by (simp add: andThen_def simple Let_def events_renderWithFallback)
qed

lemma drawAnnotationText_unresolved:
  assumes "content annotation \<noteq> []" and "\<not> trim_is_empty (content annotation)"
    and "convertCoordinates (rect annotation) dpi = p # ps" and "2 \<le> length ps"
    and "\<not> num_le (width (boundingRect p ps)) (Num 0)"
    and "\<not> num_le (height (boundingRect p ps)) (Num 0)"
    and "simpleHtmlRender \<lparr> ctx_annotation = annotation, ctx_effectiveDpi = dpi,
                            ctx_pageNumber = pn, ctx_rect = boundingRect p ps \<rparr> annotation h
           = (simple, False)"
    and "findProviderForAnnotation dp reg annotation = Inl error"
  shows "thrown (drawAnnotationText dp reg dis annotation dpi pn h) = Some error"
    and "events (drawAnnotationText dp reg dis annotation dpi pn h) = events simple"
proof -
  let ?rc = "\<lparr> ctx_annotation = annotation, ctx_effectiveDpi = dpi,
               ctx_pageNumber = pn, ctx_rect = boundingRect p ps \<rparr>"
  have eq: "drawAnnotationText dp reg dis annotation dpi pn h = andThen simple (raises error)"
    using drawAnnotationText_guarded [OF assms(1-7), of dp reg dis] assms(8) by simp
  have simple: "thrown simple = None"
    using simpleHtmlRender_result [of ?rc annotation h] assms(7) by simp
  show "thrown (drawAnnotationText dp reg dis annotation dpi pn h) = Some error"
    unfolding eq by (simp add: andThen_def simple Let_def raises_def)
  show "events (drawAnnotationText dp reg dis annotation dpi pn h) = events simple"
    unfolding eq by (simp add: andThen_def simple Let_def raises_def)
qed

lemma thrown_dispatch:
  "thrown (case findProviderForAnnotation dp reg annotation of
             Inl error \<Rightarrow> raises error h
           | Inr provider \<Rightarrow> renderWithFallback dp dis provider rc h) = Some e
   \<Longrightarrow> findProviderForAnnotation dp reg annotation = Inl e"
  by (cases "findProviderForAnnotation dp reg annotation") (simp_all add: thrown_renderWithFallback)

lemma thrown_drawAnnotationText:
  assumes "thrown (drawAnnotationText dp reg dis annotation dpi pn h) = Some e"
  shows "findProviderForAnnotation dp reg annotation = Inl e"
proof -
  have step: "findProviderForAnnotation dp reg annotation = Inl e"
    if "thrown (case simpleHtmlRender rc annotation h of
                  (simple, returned) \<Rightarrow>
                    if returned then simple
                    else andThen simple
                           (\<lambda>h1. case findProviderForAnnotation dp reg annotation of
                                    Inl error \<Rightarrow> raises error h1
                                  | Inr provider \<Rightarrow> renderWithFallback dp dis provider rc h1))
          = Some e"
    for rc
  proof (cases "simpleHtmlRender rc annotation h")
    case (Pair simple returned)
    have simple: "thrown simple = None"
      using simpleHtmlRender_result [of rc annotation h] Pair by simp
    from that Pair simple have "\<not> returned" by auto
    with that Pair simple show ?thesis
      by (auto simp: andThen_def Let_def dest: thrown_dispatch)
  qed
  from assms show ?thesis
    unfolding drawAnnotationText_def Let_def
    by (auto split: if_splits list.splits dest: step)
qed

lemma thrown_drawHoverEffect:
  "thrown (drawHoverEffect dp reg dis isPointInPath paths x y dpi h) = None"
  unfolding drawHoverEffect_def
  by (auto split: option.splits intro!: thrown_andThen thrown_tryCatch)

text \<open>
  C2, as the code has it. The \<^verbatim>\<open>try\<close> statement of \<^verbatim>\<open>drawAnnotationText\<close> lets no
  exception out, whatever the resolved provider and the default renderer do.
  Its trace is the provider's render alone when that returns. When the
  provider's render throws, the provider is not \<^verbatim>\<open>'default'\<close> and the fallback is
  not disabled, the trace is: the provider's render, a warning, one render of
  \<^verbatim>\<open>'default'\<close>, and, if that one throws too, an error line and nothing more. When
  it throws and the provider is \<^verbatim>\<open>'default'\<close> or the fallback is disabled, the trace
  is the render and the warning.

  An annotation with content and a proper bounding box reaches that statement
  unless the HTML overlay branch returns; an exception of the HTML callback is
  caught and logged before. The trace of \<^verbatim>\<open>drawAnnotationText\<close> is then that log
  line, if any, followed by the trace of the \<^verbatim>\<open>try\<close> statement, so that the whole
  call renders with \<^verbatim>\<open>'default'\<close> exactly once in the first of the failing cases.

  Resolution stands outside the \<^verbatim>\<open>try\<close> statement: when a \<^verbatim>\<open>canHandle\<close> throws, no
  render is invoked and \<^verbatim>\<open>drawAnnotationText\<close> ends with that exception, and this
  is the only exception that leaves it. Its caller \<^verbatim>\<open>drawHoverEffect\<close> catches it,
  so nothing leaves \<^verbatim>\<open>drawHoverEffect\<close>.
\<close>

theorem render_fallback_bounded:
  "thrown (renderWithFallback (createDefaultProvider r) dis provider rc h) = None
   \<and> (p_render provider rc = Returned \<longrightarrow>
        events (renderWithFallback (createDefaultProvider r) dis provider rc h)
          = [RenderCall (p_id provider)])
   \<and> (p_render provider rc = Threw e \<and> p_id provider \<noteq> ''default'' \<and> \<not> dis \<longrightarrow>
        events (renderWithFallback (createDefaultProvider r) dis provider rc h)
          = [RenderCall (p_id provider),
             Console (ConsoleWarn (''Error rendering annotation with provider '' @ p_id provider @ '':'')),
             RenderCall ''default'']
            @ (case r rc of
                 Returned \<Rightarrow> []
               | Threw fallbackError \<Rightarrow> [Console (ConsoleError ''Default provider also failed:'')])
        \<and> count_list (events (renderWithFallback (createDefaultProvider r) dis provider rc h))
              (RenderCall ''default'') = 1)
   \<and> (p_render provider rc = Threw e \<and> (p_id provider = ''default'' \<or> dis) \<longrightarrow>
        events (renderWithFallback (createDefaultProvider r) dis provider rc h)
          = [RenderCall (p_id provider),
             Console (ConsoleWarn (''Error rendering annotation with provider '' @ p_id provider @ '':''))])
   \<and> (content annotation \<noteq> [] \<and> \<not> trim_is_empty (content annotation)
        \<and> convertCoordinates (rect annotation) dpi = p # ps \<and> 2 \<le> length ps
        \<and> \<not> num_le (width (boundingRect p ps)) (Num 0)
        \<and> \<not> num_le (height (boundingRect p ps)) (Num 0)
        \<and> simpleHtmlRender \<lparr> ctx_annotation = annotation, ctx_effectiveDpi = dpi,
                              ctx_pageNumber = pn, ctx_rect = boundingRect p ps \<rparr> annotation h
            = (simple, returned)
      \<longrightarrow> set (events simple) \<subseteq> {Console (ConsoleWarn ''[Simple HTML Render] Error creating overlay:'')}
          \<and> (returned \<longrightarrow>
                drawAnnotationText (createDefaultProvider r) reg dis annotation dpi pn h = simple
                \<and> events simple = [] \<and> thrown simple = None)
          \<and> (\<not> returned \<and> findProviderForAnnotation (createDefaultProvider r) reg annotation
                               = Inr provider \<longrightarrow>
                thrown (drawAnnotationText (createDefaultProvider r) reg dis annotation dpi pn h) = None
                \<and> events (drawAnnotationText (createDefaultProvider r) reg dis annotation dpi pn h)
                    = events simple
                      @ events (renderWithFallback (createDefaultProvider r) dis provider
                                  \<lparr> ctx_annotation = annotation, ctx_effectiveDpi = dpi,
                                    ctx_pageNumber = pn, ctx_rect = boundingRect p ps \<rparr> h)
                \<and> (p_render provider \<lparr> ctx_annotation = annotation, ctx_effectiveDpi = dpi,
                                         ctx_pageNumber = pn, ctx_rect = boundingRect p ps \<rparr> = Threw e
                      \<and> p_id provider \<noteq> ''default'' \<and> \<not> dis \<longrightarrow>
                     count_list (events (drawAnnotationText (createDefaultProvider r) reg dis
                                           annotation dpi pn h))
                       (RenderCall ''default'') = 1))
          \<and> (\<not> returned \<and> findProviderForAnnotation (createDefaultProvider r) reg annotation
                               = Inl ce \<longrightarrow>
                thrown (drawAnnotationText (createDefaultProvider r) reg dis annotation dpi pn h)
                  = Some ce
                \<and> events (drawAnnotationText (createDefaultProvider r) reg dis annotation dpi pn h)
                    = events simple))
   \<and> (thrown (drawAnnotationText (createDefaultProvider r) reg dis annotation dpi pn h) = Some ce
        \<longrightarrow> findProviderForAnnotation (createDefaultProvider r) reg annotation = Inl ce)
   \<and> thrown (drawHoverEffect (createDefaultProvider r) reg dis isPointInPath paths x y dpi h) = None"
proof -
  let ?dp = "createDefaultProvider r"
  let ?rc = "\<lparr> ctx_annotation = annotation, ctx_effectiveDpi = dpi,
               ctx_pageNumber = pn, ctx_rect = boundingRect p ps \<rparr>"
  let ?warn = "Console (ConsoleWarn (''Error rendering annotation with provider '' @ p_id provider @ '':''))"
  have dp: "p_id ?dp = ''default''" "p_render ?dp = r"
    by (simp_all add: createDefaultProvider_def)
  have c1: "thrown (renderWithFallback ?dp dis provider rc h) = None"
    by (rule thrown_renderWithFallback)
  have c2: "events (renderWithFallback ?dp dis provider rc h) = [RenderCall (p_id provider)]"
    if "p_render provider rc = Returned"
    using that by (simp add: events_renderWithFallback)
  have c3: "events (renderWithFallback ?dp dis provider rc h)
          = [RenderCall (p_id provider), ?warn, RenderCall ''default'']
            @ (case r rc of
                 Returned \<Rightarrow> []
               | Threw fallbackError \<Rightarrow> [Console (ConsoleError ''Default provider also failed:'')])"
    if "p_render provider rc = Threw e \<and> p_id provider \<noteq> ''default'' \<and> \<not> dis"
    using that by (simp add: events_renderWithFallback dp)
  have c3': "count_list (events (renderWithFallback ?dp dis provider rc h)) (RenderCall ''default'') = 1"
    if "p_render provider rc = Threw e \<and> p_id provider \<noteq> ''default'' \<and> \<not> dis"
    using that by (simp add: events_renderWithFallback dp split: render_outcome.splits)
  have c4: "events (renderWithFallback ?dp dis provider rc h) = [RenderCall (p_id provider), ?warn]"
    if "p_render provider rc = Threw e \<and> (p_id provider = ''default'' \<or> dis)"
    using that by (auto simp add: events_renderWithFallback)
  have c5: "set (events simple) \<subseteq> {Console (ConsoleWarn ''[Simple HTML Render] Error creating overlay:'')}
          \<and> (returned \<longrightarrow>
                drawAnnotationText ?dp reg dis annotation dpi pn h = simple
                \<and> events simple = [] \<and> thrown simple = None)
          \<and> (\<not> returned \<and> findProviderForAnnotation ?dp reg annotation = Inr provider \<longrightarrow>
                thrown (drawAnnotationText ?dp reg dis annotation dpi pn h) = None
                \<and> events (drawAnnotationText ?dp reg dis annotation dpi pn h)
                    = events simple @ events (renderWithFallback ?dp dis provider ?rc h)
                \<and> (p_render provider ?rc = Threw e \<and> p_id provider \<noteq> ''default'' \<and> \<not> dis \<longrightarrow>
                     count_list (events (drawAnnotationText ?dp reg dis annotation dpi pn h))
                       (RenderCall ''default'') = 1))
          \<and> (\<not> returned \<and> findProviderForAnnotation ?dp reg annotation = Inl ce \<longrightarrow>
                thrown (drawAnnotationText ?dp reg dis annotation dpi pn h) = Some ce
                \<and> events (drawAnnotationText ?dp reg dis annotation dpi pn h) = events simple)"
    if g: "content annotation \<noteq> [] \<and> \<not> trim_is_empty (content annotation)
        \<and> convertCoordinates (rect annotation) dpi = p # ps \<and> 2 \<le> length ps
        \<and> \<not> num_le (width (boundingRect p ps)) (Num 0)
        \<and> \<not> num_le (height (boundingRect p ps)) (Num 0)
        \<and> simpleHtmlRender ?rc annotation h = (simple, returned)"
  proof (intro conjI impI)
    note s = simpleHtmlRender_result [of ?rc annotation h]
    from g have sr: "simpleHtmlRender ?rc annotation h = (simple, returned)" by simp
    show "set (events simple) \<subseteq> {Console (ConsoleWarn ''[Simple HTML Render] Error creating overlay:'')}"
      using s sr by simp
    show "thrown simple = None" using s sr by simp
    show "events simple = []" if returned using s sr that by simp
    show "drawAnnotationText ?dp reg dis annotation dpi pn h = simple" if returned
      using drawAnnotationText_guarded [of annotation dpi p ps pn h simple returned ?dp reg dis] g that
      by simp
    {
      assume a: "\<not> returned \<and> findProviderForAnnotation ?dp reg annotation = Inr provider"
      with sr have sr': "simpleHtmlRender ?rc annotation h = (simple, False)" by simp
      show "thrown (drawAnnotationText ?dp reg dis annotation dpi pn h) = None"
        using g a by (intro drawAnnotationText_resolved(1) [OF _ _ _ _ _ _ sr']) auto
      show ev: "events (drawAnnotationText ?dp reg dis annotation dpi pn h)
              = events simple @ events (renderWithFallback ?dp dis provider ?rc h)"
        using g a by (intro drawAnnotationText_resolved(2) [OF _ _ _ _ _ _ sr']) auto
      have "RenderCall ''default'' \<notin> set (events simple)"
        using s sr by auto
      then have none: "count_list (events simple) (RenderCall ''default'') = 0"
        by (simp add: count_list_0_iff)
      show "count_list (events (drawAnnotationText ?dp reg dis annotation dpi pn h))
              (RenderCall ''default'') = 1"
        if "p_render provider ?rc = Threw e \<and> p_id provider \<noteq> ''default'' \<and> \<not> dis"
        unfolding ev using that none
        by (simp add: events_renderWithFallback dp split: render_outcome.splits)
    }
    {
      assume a: "\<not> returned \<and> findProviderForAnnotation ?dp reg annotation = Inl ce"
      with sr have sr': "simpleHtmlRender ?rc annotation h = (simple, False)" by simp
      show "thrown (drawAnnotationText ?dp reg dis annotation dpi pn h) = Some ce"
        using g a by (intro drawAnnotationText_unresolved(1) [OF _ _ _ _ _ _ sr']) auto
      show "events (drawAnnotationText ?dp reg dis annotation dpi pn h) = events simple"
        using g a by (intro drawAnnotationText_unresolved(2) [OF _ _ _ _ _ _ sr']) auto
    }
  qed
  have c6: "findProviderForAnnotation ?dp reg annotation = Inl ce"
    if "thrown (drawAnnotationText ?dp reg dis annotation dpi pn h) = Some ce"
    using that by (rule thrown_drawAnnotationText)
  have c7: "thrown (drawHoverEffect ?dp reg dis isPointInPath paths x y dpi h) = None"
    by (rule thrown_drawHoverEffect)
  from c1 c2 c3 c3' c4 c5 c6 c7 show ?thesis
    by (intro conjI impI) blast+
qed

theorem render_fallback_bounded_witness:
  "events (drawAnnotationText (createDefaultProvider (\<lambda>_. Returned)) example_failing_registry False
             (example_annotation ''foo'') (Num 96) 0 example_host)
     = [RenderCall ''json-debug-provider'',
        Console (ConsoleWarn ''Error rendering annotation with provider json-debug-provider:''),
        RenderCall ''default'']
   \<and> events (drawAnnotationText (createDefaultProvider (\<lambda>_. Threw ''bad'')) example_failing_registry False
             (example_annotation ''foo'') (Num 96) 0 example_host)
     = [RenderCall ''json-debug-provider'',
        Console (ConsoleWarn ''Error rendering annotation with provider json-debug-provider:''),
        RenderCall ''default'',
        Console (ConsoleError ''Default provider also failed:'')]
   \<and> thrown (drawAnnotationText (createDefaultProvider (\<lambda>_. Threw ''bad'')) example_failing_registry False
             (example_annotation ''foo'') (Num 96) 0 example_host) = None
   \<and> events (drawAnnotationText (createDefaultProvider (\<lambda>_. Returned)) example_failing_registry True
             (example_annotation ''foo'') (Num 96) 0 example_host)
     = [RenderCall ''json-debug-provider'',
        Console (ConsoleWarn ''Error rendering annotation with provider json-debug-provider:'')]
   \<and> events (drawAnnotationText (createDefaultProvider (\<lambda>_. Returned)) example_failing_registry False
             (example_annotation ''foo'') (Num 96) 0 example_html_host)
     = [Console (ConsoleWarn ''[Simple HTML Render] Error creating overlay:''),
        RenderCall ''json-debug-provider'',
        Console (ConsoleWarn ''Error rendering annotation with provider json-debug-provider:''),
        RenderCall ''default'']
   \<and> events (drawAnnotationText (createDefaultProvider (\<lambda>_. Returned)) (initialRegistry example_default)
             False (example_annotation ''foo'') (Num 96) 0 example_host)
     = [RenderCall ''default'']
   \<and> events (drawAnnotationText (createDefaultProvider (\<lambda>_. Threw ''bad'')) (initialRegistry example_default)
             False (example_annotation ''foo'') (Num 96) 0 example_host)
     = [RenderCall ''default'',
        Console (ConsoleWarn ''Error rendering annotation with provider default:'')]
   \<and> drawAnnotationText (createDefaultProvider (\<lambda>_. Returned)) example_failing_registry False
        (example_annotation ''foo'') (Num 96) 0
        (example_html_host \<lparr> htmlOverlayContainer := Some [''1-1''] \<rparr>)
     = returns (example_html_host \<lparr> htmlOverlayContainer := Some [''1-1''] \<rparr>)
   \<and> thrown (drawAnnotationText (createDefaultProvider (\<lambda>_. Returned)) example_broken_registry False
             (example_annotation ''foo'') (Num 96) 0 example_host) = Some ''boom''
   \<and> events (drawAnnotationText (createDefaultProvider (\<lambda>_. Returned)) example_broken_registry False
             (example_annotation ''foo'') (Num 96) 0 example_host) = []
   \<and> thrown (drawHoverEffect (createDefaultProvider (\<lambda>_. Returned)) example_broken_registry False
             rayCastingContains example_paths (Num 48) (Num 48) (Num 96) example_host) = None"
proof -
  let ?a = "example_annotation ''foo''"
  let ?p = "(Num 0, Num 0) :: number \<times> number"
  let ?ps = "[(Num 96, Num 0), (Num 96, Num 96), (Num 0, Num 96)] :: (number \<times> number) list"
  let ?rc = "\<lparr> ctx_annotation = ?a, ctx_effectiveDpi = Num 96, ctx_pageNumber = 0,
               ctx_rect = boundingRect ?p ?ps \<rparr>"
  let ?json = "provider_of_options example_json_debug"
  let ?ok = "createDefaultProvider (\<lambda>_. Returned)"
  let ?bad = "createDefaultProvider (\<lambda>_. Threw ''bad'')"
  let ?seen = "example_html_host \<lparr> htmlOverlayContainer := Some [''1-1''] \<rparr>"
  have cc: "convertCoordinates (rect ?a) (Num 96) = ?p # ?ps"
    by (simp add: example_annotation_def)
  have pid: "p_id ?json = ''json-debug-provider''" "p_render ?json = (\<lambda>_. Threw ''boom'')"
    by (simp_all add: provider_of_options_def example_json_debug_def json_debug_id)
  have dp: "p_id ?ok = ''default''" "p_render ?ok = (\<lambda>_. Returned)"
           "p_id ?bad = ''default''" "p_render ?bad = (\<lambda>_. Threw ''bad'')"
    by (simp_all add: createDefaultProvider_def)
  have c: "content ?a = code_units ''foo''" by (simp add: example_annotation_def)
  note ev = example_failing_resolution example_broken_resolution example_initial_resolution
    example_host_html pid dp cc c foo_not_blank example_bounding_rect returns_def emit_def
  have w1: "events (drawAnnotationText ?ok example_failing_registry False ?a (Num 96) 0 example_host)
     = [RenderCall ''json-debug-provider'',
        Console (ConsoleWarn ''Error rendering annotation with provider json-debug-provider:''),
        RenderCall ''default'']"
    using render_fallback_bounded
            [where r = "\<lambda>_. Returned" and reg = example_failing_registry and dis = False
               and annotation = ?a and dpi = "Num 96" and pn = 0 and h = example_host
               and provider = ?json and rc = ?rc and e = "''boom''" and p = ?p and ps = ?ps
               and simple = "returns example_host" and returned = False and ce = "''boom''"]
    by (simp add: ev)
  have w2: "events (drawAnnotationText ?bad example_failing_registry False ?a (Num 96) 0 example_host)
     = [RenderCall ''json-debug-provider'',
        Console (ConsoleWarn ''Error rendering annotation with provider json-debug-provider:''),
        RenderCall ''default'',
        Console (ConsoleError ''Default provider also failed:'')]
     \<and> thrown (drawAnnotationText ?bad example_failing_registry False ?a (Num 96) 0 example_host) = None"
    using render_fallback_bounded
            [where r = "\<lambda>_. Threw ''bad''" and reg = example_failing_registry and dis = False
               and annotation = ?a and dpi = "Num 96" and pn = 0 and h = example_host
               and provider = ?json and rc = ?rc and e = "''boom''" and p = ?p and ps = ?ps
               and simple = "returns example_host" and returned = False and ce = "''boom''"]
    by (simp add: ev)
  have w3: "events (drawAnnotationText ?ok example_failing_registry True ?a (Num 96) 0 example_host)
     = [RenderCall ''json-debug-provider'',
        Console (ConsoleWarn ''Error rendering annotation with provider json-debug-provider:'')]"
    using render_fallback_bounded
            [where r = "\<lambda>_. Returned" and reg = example_failing_registry and dis = True
               and annotation = ?a and dpi = "Num 96" and pn = 0 and h = example_host
               and provider = ?json and rc = ?rc and e = "''boom''" and p = ?p and ps = ?ps
               and simple = "returns example_host" and returned = False and ce = "''boom''"]
    by (simp add: ev)
  have w4: "events (drawAnnotationText ?ok example_failing_registry False ?a (Num 96) 0 example_html_host)
     = [Console (ConsoleWarn ''[Simple HTML Render] Error creating overlay:''),
        RenderCall ''json-debug-provider'',
        Console (ConsoleWarn ''Error rendering annotation with provider json-debug-provider:''),
        RenderCall ''default'']"
    using render_fallback_bounded
            [where r = "\<lambda>_. Returned" and reg = example_failing_registry and dis = False
               and annotation = ?a and dpi = "Num 96" and pn = 0 and h = example_html_host
               and provider = ?json and rc = ?rc and e = "''boom''" and p = ?p and ps = ?ps
               and simple = "emit (Console (ConsoleWarn ''[Simple HTML Render] Error creating overlay:''))
                               example_html_host"
               and returned = False and ce = "''boom''"]
    by (simp add: ev)
  have w5: "events (drawAnnotationText ?ok (initialRegistry example_default) False ?a (Num 96) 0 example_host)
     = [RenderCall ''default'']"
    using render_fallback_bounded
            [where r = "\<lambda>_. Returned" and reg = "initialRegistry example_default" and dis = False
               and annotation = ?a and dpi = "Num 96" and pn = 0 and h = example_host
               and provider = ?ok and rc = ?rc and e = "''boom''" and p = ?p and ps = ?ps
               and simple = "returns example_host" and returned = False and ce = "''boom''"]
    by (simp add: ev)
  have w6: "events (drawAnnotationText ?bad (initialRegistry example_default) False ?a (Num 96) 0 example_host)
     = [RenderCall ''default'',
        Console (ConsoleWarn ''Error rendering annotation with provider default:'')]"
    using render_fallback_bounded
            [where r = "\<lambda>_. Threw ''bad''" and reg = "initialRegistry example_default" and dis = False
               and annotation = ?a and dpi = "Num 96" and pn = 0 and h = example_host
               and provider = ?bad and rc = ?rc and e = "''bad''" and p = ?p and ps = ?ps
               and simple = "returns example_host" and returned = False and ce = "''boom''"]
    by (simp add: ev)
  have w7: "drawAnnotationText ?ok example_failing_registry False ?a (Num 96) 0 ?seen = returns ?seen"
    using render_fallback_bounded
            [where r = "\<lambda>_. Returned" and reg = example_failing_registry and dis = False
               and annotation = ?a and dpi = "Num 96" and pn = 0 and h = ?seen
               and provider = ?json and rc = ?rc and e = "''boom''" and p = ?p and ps = ?ps
               and simple = "returns ?seen" and returned = True and ce = "''boom''"]
    by (simp add: ev)
  have w8: "thrown (drawAnnotationText ?ok example_broken_registry False ?a (Num 96) 0 example_host)
              = Some ''boom''
     \<and> events (drawAnnotationText ?ok example_broken_registry False ?a (Num 96) 0 example_host) = []
     \<and> thrown (drawHoverEffect ?ok example_broken_registry False rayCastingContains example_paths
                 (Num 48) (Num 48) (Num 96) example_host) = None"
    using render_fallback_bounded
            [where r = "\<lambda>_. Returned" and reg = example_broken_registry and dis = False
               and annotation = ?a and dpi = "Num 96" and pn = 0 and h = example_host
               and provider = ?json and rc = ?rc and e = "''boom''" and p = ?p and ps = ?ps
               and simple = "returns example_host" and returned = False and ce = "''boom''"
               and isPointInPath = rayCastingContains and paths = example_paths
               and x = "Num 48" and y = "Num 48"]
    by (simp add: ev)
  from w1 w2 w3 w4 w5 w6 w7 w8 show ?thesis by (intro conjI) simp_all
qed

text \<open>
  C2 as the specification words it fails in its last part: an active provider
  whose \<^verbatim>\<open>canHandle\<close> throws makes \<^verbatim>\<open>drawAnnotationText\<close> end with that exception,
  before any render is invoked.
\<close>

theorem canHandle_exception_leaves_drawAnnotationText:
  "p_canHandle (provider_of_options example_broken) (example_annotation ''foo'') = CanHandleThrew ''boom''
   \<and> isProviderActive ''broken'' example_broken_registry
   \<and> drawAnnotationText example_default example_broken_registry False (example_annotation ''foo'')
        (Num 96) 0 example_host
      = \<lparr> events = [], host = example_host, thrown = Some ''boom'' \<rparr>"
proof -
  have res: "findProviderForAnnotation example_default example_broken_registry (example_annotation ''foo'')
               = Inl ''boom''"
    by (rule example_broken_resolution)
  have active: "isProviderActive ''broken'' example_broken_registry"
    by (simp add: isProviderActive_def example_broken_registry_def registerAnnotationProvider_def
          provider_of_options_def example_broken_def initialRegistry_def Set_has_def Set_add_def Let_def)
  have cc: "convertCoordinates (rect (example_annotation ''foo'')) (Num 96)
              = (Num 0, Num 0) # [(Num 96, Num 0), (Num 96, Num 96), (Num 0, Num 96)]"
    by (simp add: example_annotation_def)
  have c: "content (example_annotation ''foo'') = code_units ''foo''"
    by (simp add: example_annotation_def)
  have "drawAnnotationText example_default example_broken_registry False (example_annotation ''foo'')
        (Num 96) 0 example_host
      = \<lparr> events = [], host = example_host, thrown = Some ''boom'' \<rparr>"
    by (simp add: drawAnnotationText_def Let_def cc c foo_not_blank example_bounding_rect
          example_host_html res andThen_def returns_def raises_def)
  with active show ?thesis
    by (simp add: provider_of_options_def example_broken_def)
qed

lemma drawAnnotations_indexes_page:
  "a \<in> set (getAnnotationsForPage anns pageNumber) \<Longrightarrow>
   Map_has (annotationId a) (drawAnnotations anns pageNumber dpi)"
  unfolding drawAnnotations_def
  by (subst Map_has_foldl_Map_set) auto

text \<open>
  C9, as the code has it. An annotation that converts to fewer than three points,
  or whose bounding box has width or height at most zero, is skipped by
  \<^verbatim>\<open>drawAnnotationText\<close>: no provider is invoked, nothing is thrown, the overlay
  container is untouched. The hit-test index is not filtered by geometry:
  \<^verbatim>\<open>drawAnnotations\<close> stores an entry for every annotation of the page.
\<close>

theorem degenerate_geometry_not_rendered:
  "(length (convertCoordinates (rect annotation) dpi) < 3 \<longrightarrow>
      drawAnnotationText dp reg dis annotation dpi pn h
        = \<lparr> events = [], host = h, thrown = None \<rparr>)
   \<and> (convertCoordinates (rect annotation) dpi = p # ps
        \<and> (num_le (width (boundingRect p ps)) (Num 0) \<or> num_le (height (boundingRect p ps)) (Num 0))
      \<longrightarrow> drawAnnotationText dp reg dis annotation dpi pn h
            = \<lparr> events = [], host = h, thrown = None \<rparr>)
   \<and> (\<forall>a \<in> set (getAnnotationsForPage anns pageNumber).
         Map_has (annotationId a) (drawAnnotations anns pageNumber dpi))"
proof (intro conjI impI ballI)
  assume "length (convertCoordinates (rect annotation) dpi) < 3"
  then show "drawAnnotationText dp reg dis annotation dpi pn h
        = \<lparr> events = [], host = h, thrown = None \<rparr>"
    by (simp add: drawAnnotationText_def Let_def returns_def)
next
  assume "convertCoordinates (rect annotation) dpi = p # ps
        \<and> (num_le (width (boundingRect p ps)) (Num 0) \<or> num_le (height (boundingRect p ps)) (Num 0))"
  then show "drawAnnotationText dp reg dis annotation dpi pn h
        = \<lparr> events = [], host = h, thrown = None \<rparr>"
    by (auto simp add: drawAnnotationText_def Let_def returns_def)
next
  fix a assume "a \<in> set (getAnnotationsForPage anns pageNumber)"
  then show "Map_has (annotationId a) (drawAnnotations anns pageNumber dpi)"
    by (rule drawAnnotations_indexes_page)
qed

theorem degenerate_geometry_not_rendered_witness:
  "length (convertCoordinates (rect example_segment) (Num 96)) < 3
   \<and> convertCoordinates (rect example_flat) (Num 96)
       = (Num 0, Num 96) # [(Num 192, Num 96), (Num 480, Num 96)]
   \<and> num_le (height (boundingRect (Num 0, Num 96) [(Num 192, Num 96), (Num 480, Num 96)])) (Num 0)
   \<and> example_segment \<in> set (getAnnotationsForPage [example_segment, example_flat] 0)
   \<and> events (drawAnnotationText example_default example_failing_registry False example_segment
               (Num 96) 0 example_host) = []
   \<and> events (drawAnnotationText example_default example_failing_registry False example_flat
               (Num 96) 0 example_host) = []
   \<and> Map_has (annotationId example_segment)
        (drawAnnotations [example_segment, example_flat] 0 (Num 96))"
proof -
  have seg: "length (convertCoordinates (rect example_segment) (Num 96)) < 3"
    by (simp add: example_segment_def)
  have flat: "convertCoordinates (rect example_flat) (Num 96)
       = (Num 0, Num 96) # [(Num 192, Num 96), (Num 480, Num 96)]"
    by (simp add: example_flat_def)
  have box: "num_le (height (boundingRect (Num 0, Num 96) [(Num 192, Num 96), (Num 480, Num 96)])) (Num 0)"
    by (simp add: boundingRect_def Math_min_def Math_max_def Let_def)
  have onpage: "example_segment \<in> set (getAnnotationsForPage [example_segment, example_flat] 0)"
    by (simp add: getAnnotationsForPage_def example_segment_def toString_int_small)
  show ?thesis
    using degenerate_geometry_not_rendered
            [where annotation = example_segment and dpi = "Num 96" and dp = example_default
               and reg = example_failing_registry and dis = False and pn = 0 and h = example_host
               and anns = "[example_segment, example_flat]" and pageNumber = 0
               and p = "(Num 0, Num 0)" and ps = "[]"]
          degenerate_geometry_not_rendered
            [where annotation = example_flat and dpi = "Num 96" and dp = example_default
               and reg = example_failing_registry and dis = False and pn = 0 and h = example_host
               and anns = "[example_segment, example_flat]" and pageNumber = 0
               and p = "(Num 0, Num 96)" and ps = "[(Num 192, Num 96), (Num 480, Num 96)]"]
    by (simp add: seg flat box onpage)
qed

text \<open>
  C9 as the specification words it fails in its last part: an annotation of two
  points is stored in the hit-test index, and a hit test whose containment test
  accepts its path returns it.
\<close>

theorem degenerate_annotation_is_indexed:
  "length (convertCoordinates (rect example_segment) (Num 96)) < 3
   \<and> drawAnnotations [example_segment] 0 (Num 96)
       = [(''annotation-1-2'',
           ([MoveTo (Num 0) (Num 0), LineTo (Num 96) (Num 96), ClosePath], example_segment))]
   \<and> getAnnotationAtPoint (\<lambda>path x y. True) (drawAnnotations [example_segment] 0 (Num 96))
        (Num 48) (Num 48) = Some example_segment"
  by (simp add: drawAnnotations_def getAnnotationsForPage_def annotationId_def
        createAnnotationPath_def toString_int_small) (simp add: example_segment_def toString_int_small)

section \<open>Properties of pointer movement\<close>

lemma hover_consistent_initial: "hover_consistent initialHoverState"
  by (simp add: hover_consistent_def initialHoverState_def)

lemma move_state:
  "hover_consistent st \<Longrightarrow>
   snd (handleCanvasMouseMove True dpr ipp paths q st)
     = \<lparr> previousHoverState = (hitAt ipp paths q \<noteq> None),
         previousHoveredAnnotation = hitAt ipp paths q \<rparr>"
  by (cases st)
     (auto simp: handleCanvasMouseMove_def handleAnnotationHover_def hitAt_def Let_def
        hover_consistent_def)

lemma pointerMoves_Cons:
  "pointerMoves m dpr ipp paths (q # qs) st
     = (fst (handleCanvasMouseMove m dpr ipp paths q st)
          @ fst (pointerMoves m dpr ipp paths qs (snd (handleCanvasMouseMove m dpr ipp paths q st))),
        snd (pointerMoves m dpr ipp paths qs (snd (handleCanvasMouseMove m dpr ipp paths q st))))"
  by (simp add: Let_def case_prod_beta)

lemma move_consistent:
  assumes "hover_consistent st"
  shows "hover_consistent (snd (handleCanvasMouseMove m dpr ipp paths q st))"
proof (cases m)
  case True
  have "hover_consistent (snd (handleCanvasMouseMove True dpr ipp paths q st))"
    unfolding move_state [OF assms] by (simp add: hover_consistent_def)
  with True show ?thesis by simp
next
  case False
  with assms show ?thesis by (simp add: handleCanvasMouseMove_def)
qed

lemma moves_consistent:
  "hover_consistent st \<Longrightarrow> hover_consistent (snd (pointerMoves m dpr ipp paths qs st))"
proof (induction qs arbitrary: st)
  case Nil
  then show ?case by simp
next
  case (Cons q qs)
  have "hover_consistent (snd (handleCanvasMouseMove m dpr ipp paths q st))"
    using Cons.prems by (rule move_consistent)
  from Cons.IH [OF this] show ?case
    by (simp add: pointerMoves_Cons del: pointerMoves.simps(2))
qed

lemma moves_snoc_state:
  "snd (pointerMoves m dpr ipp paths (qs @ [q]) st)
     = snd (handleCanvasMouseMove m dpr ipp paths q (snd (pointerMoves m dpr ipp paths qs st)))"
  by (induction qs arbitrary: st) (simp_all add: pointerMoves_Cons del: pointerMoves.simps(2))

lemma state_after_move:
  "previousHoveredAnnotation
     (snd (pointerMoves True dpr ipp paths (history @ [p]) initialHoverState)) = hitAt ipp paths p"
  "hover_consistent (snd (pointerMoves True dpr ipp paths (history @ [p]) initialHoverState))"
proof -
  have c: "hover_consistent (snd (pointerMoves True dpr ipp paths history initialHoverState))"
    by (rule moves_consistent [OF hover_consistent_initial])
  show "previousHoveredAnnotation
     (snd (pointerMoves True dpr ipp paths (history @ [p]) initialHoverState)) = hitAt ipp paths p"
    unfolding moves_snoc_state by (simp add: move_state [OF c])
  show "hover_consistent (snd (pointerMoves True dpr ipp paths (history @ [p]) initialHoverState))"
    by (rule moves_consistent [OF hover_consistent_initial])
qed

lemma move_unchanged:
  "hover_consistent st \<Longrightarrow> previousHoveredAnnotation st = hitAt ipp paths q \<Longrightarrow>
   handleCanvasMouseMove True dpr ipp paths q st
     = ([SetCursor (if hitAt ipp paths q \<noteq> None then ''pointer'' else ''default'')], st)"
  by (auto simp: handleCanvasMouseMove_def handleAnnotationHover_def hitAt_def Let_def
        hover_consistent_def)

lemma move_changed_to_annotation:
  "hover_consistent st \<Longrightarrow> hitAt ipp paths q = Some b \<Longrightarrow> previousHoveredAnnotation st \<noteq> Some b \<Longrightarrow>
   fst (handleCanvasMouseMove True dpr ipp paths q st)
     = [ClearRect, ClearHtmlOverlays, DrawHoverEffect (fst q) (snd q) (hoverEffectiveDpi dpr),
        SetCursor ''pointer'']"
  by (auto simp: handleCanvasMouseMove_def handleAnnotationHover_def hitAt_def Let_def
        hover_consistent_def)

lemma move_changed_to_none:
  "hover_consistent st \<Longrightarrow> hitAt ipp paths q = None \<Longrightarrow> previousHoveredAnnotation st \<noteq> None \<Longrightarrow>
   fst (handleCanvasMouseMove True dpr ipp paths q st)
     = [ClearRect, ClearHtmlOverlays, SetCursor ''default'']"
  by (auto simp: handleCanvasMouseMove_def handleAnnotationHover_def hitAt_def Let_def
        hover_consistent_def)

lemma moves_unchanged:
  "hover_consistent st \<Longrightarrow> \<forall>q \<in> set qs. hitAt ipp paths q = previousHoveredAnnotation st \<Longrightarrow>
   snd (pointerMoves True dpr ipp paths qs st) = st
   \<and> teardowns (fst (pointerMoves True dpr ipp paths qs st)) = (0, 0)
   \<and> setups (fst (pointerMoves True dpr ipp paths qs st)) = 0"
proof (induction qs)
  case Nil
  then show ?case by (simp add: teardowns_def setups_def)
next
  case (Cons q qs)
  have q: "handleCanvasMouseMove True dpr ipp paths q st
     = ([SetCursor (if hitAt ipp paths q \<noteq> None then ''pointer'' else ''default'')], st)"
    using Cons.prems by (intro move_unchanged) auto
  have rest: "snd (pointerMoves True dpr ipp paths qs st) = st
   \<and> teardowns (fst (pointerMoves True dpr ipp paths qs st)) = (0, 0)
   \<and> setups (fst (pointerMoves True dpr ipp paths qs st)) = 0"
    using Cons.prems by (intro Cons.IH) auto
  then show ?case
    by (simp add: pointerMoves_Cons q teardowns_def setups_def del: pointerMoves.simps(2))
qed

text \<open>
  C7, as the code has it. Take any history of pointer-moves ending at a position
  \<open>p\<close>. Further moves whose hit-tested annotation is the one of \<open>p\<close> (the same
  annotation, or none again) perform no teardown and no setup and leave the
  tracking state as it is. A move onto an annotation other than the one of \<open>p\<close>
  performs one teardown (clear the highlight canvas, clear the HTML overlays)
  and one setup (one call of \<^verbatim>\<open>drawHoverEffect\<close>). A move from an annotation to no
  annotation performs the teardown and no setup.
\<close>

theorem redraw_suppression:
  "(let st = snd (pointerMoves True dpr ipp paths (history @ [p]) initialHoverState)
    in ((\<forall>q'\<in>set qs. hitAt ipp paths q' = hitAt ipp paths p) \<longrightarrow>
          snd (pointerMoves True dpr ipp paths qs st) = st
          \<and> teardowns (fst (pointerMoves True dpr ipp paths qs st)) = (0, 0)
          \<and> setups (fst (pointerMoves True dpr ipp paths qs st)) = 0)
       \<and> (hitAt ipp paths q = Some b \<and> hitAt ipp paths p \<noteq> Some b \<longrightarrow>
            fst (handleCanvasMouseMove True dpr ipp paths q st)
              = [ClearRect, ClearHtmlOverlays,
                 DrawHoverEffect (fst q) (snd q) (hoverEffectiveDpi dpr), SetCursor ''pointer''])
       \<and> (hitAt ipp paths q = None \<and> hitAt ipp paths p \<noteq> None \<longrightarrow>
            fst (handleCanvasMouseMove True dpr ipp paths q st)
              = [ClearRect, ClearHtmlOverlays, SetCursor ''default'']))"
proof -
  define st where "st = snd (pointerMoves True dpr ipp paths (history @ [p]) initialHoverState)"
  have prev: "previousHoveredAnnotation st = hitAt ipp paths p" and cons: "hover_consistent st"
    unfolding st_def by (rule state_after_move)+
  have same: "snd (pointerMoves True dpr ipp paths qs st) = st
          \<and> teardowns (fst (pointerMoves True dpr ipp paths qs st)) = (0, 0)
          \<and> setups (fst (pointerMoves True dpr ipp paths qs st)) = 0"
    if "\<forall>q'\<in>set qs. hitAt ipp paths q' = hitAt ipp paths p"
    using cons that by (intro moves_unchanged) (auto simp: prev)
  have enter: "fst (handleCanvasMouseMove True dpr ipp paths q st)
              = [ClearRect, ClearHtmlOverlays,
                 DrawHoverEffect (fst q) (snd q) (hoverEffectiveDpi dpr), SetCursor ''pointer'']"
    if "hitAt ipp paths q = Some b \<and> hitAt ipp paths p \<noteq> Some b"
    using cons that by (intro move_changed_to_annotation) (auto simp: prev)
  have leave: "fst (handleCanvasMouseMove True dpr ipp paths q st)
              = [ClearRect, ClearHtmlOverlays, SetCursor ''default'']"
    if "hitAt ipp paths q = None \<and> hitAt ipp paths p \<noteq> None"
    using cons that by (intro move_changed_to_none) (auto simp: prev)
  show ?thesis
    unfolding Let_def st_def [symmetric] using same enter leave by blast
qed

theorem redraw_suppression_witness:
  "hitAt rayCastingContains example_paths (Num 50, Num 50)
     = hitAt rayCastingContains example_paths (Num 48, Num 48)
   \<and> hitAt rayCastingContains example_paths (Num 200, Num 200) = None
   \<and> hitAt rayCastingContains example_paths (Num 48, Num 48) = Some (example_annotation ''x'')
   \<and> teardowns (fst (pointerMoves True (Num 1) rayCastingContains example_paths
                       [(Num 50, Num 50), (Num 10, Num 20)]
                       (snd (pointerMoves True (Num 1) rayCastingContains example_paths
                               ([] @ [(Num 48, Num 48)]) initialHoverState)))) = (0, 0)
   \<and> setups (fst (pointerMoves True (Num 1) rayCastingContains example_paths
                    [(Num 50, Num 50), (Num 10, Num 20)]
                    (snd (pointerMoves True (Num 1) rayCastingContains example_paths
                            ([] @ [(Num 48, Num 48)]) initialHoverState)))) = 0
   \<and> fst (handleCanvasMouseMove True (Num 1) rayCastingContains example_paths (Num 48, Num 48)
            (snd (pointerMoves True (Num 1) rayCastingContains example_paths
                    ([] @ [(Num 200, Num 200)]) initialHoverState)))
       = [ClearRect, ClearHtmlOverlays,
          DrawHoverEffect (Num 48) (Num 48) (hoverEffectiveDpi (Num 1)), SetCursor ''pointer'']
   \<and> fst (handleCanvasMouseMove True (Num 1) rayCastingContains example_paths (Num 200, Num 200)
            (snd (pointerMoves True (Num 1) rayCastingContains example_paths
                    ([] @ [(Num 48, Num 48)]) initialHoverState)))
       = [ClearRect, ClearHtmlOverlays, SetCursor ''default'']"
proof -
  have in48: "hitAt rayCastingContains example_paths (Num 48, Num 48) = Some (example_annotation ''x'')"
    by (rule example_hit_inside) simp_all
  have in50: "hitAt rayCastingContains example_paths (Num 50, Num 50) = Some (example_annotation ''x'')"
    by (rule example_hit_inside) simp_all
  have in10: "hitAt rayCastingContains example_paths (Num 10, Num 20) = Some (example_annotation ''x'')"
    by (rule example_hit_inside) simp_all
  have out: "hitAt rayCastingContains example_paths (Num 200, Num 200) = None"
    by (rule example_hit_outside) simp
  show ?thesis
    using redraw_suppression
            [where dpr = "Num 1" and ipp = rayCastingContains and paths = example_paths
               and history = "[]" and p = "(Num 48, Num 48)"
               and qs = "[(Num 50, Num 50), (Num 10, Num 20)]"
               and q = "(Num 200, Num 200)" and b = "example_annotation ''x''"]
          redraw_suppression
            [where dpr = "Num 1" and ipp = rayCastingContains and paths = example_paths
               and history = "[]" and p = "(Num 200, Num 200)" and qs = "[]"
               and q = "(Num 48, Num 48)" and b = "example_annotation ''x''"]
    unfolding Let_def
    by (simp add: in48 in50 in10 out del: pointerMoves.simps append.simps)
qed

text \<open>
  C7 as the specification words it, one teardown plus one setup at every change,
  fails when the pointer leaves the annotation for empty canvas: the hit-tested
  annotation changes and no setup is performed.
\<close>

theorem leaving_an_annotation_has_no_setup:
  "hitAt rayCastingContains example_paths (Num 48, Num 48)
     \<noteq> hitAt rayCastingContains example_paths (Num 200, Num 200)
   \<and> setups (fst (handleCanvasMouseMove True (Num 1) rayCastingContains example_paths
                    (Num 200, Num 200)
                    (snd (pointerMoves True (Num 1) rayCastingContains example_paths
                            [(Num 48, Num 48)] initialHoverState)))) = 0
   \<and> teardowns (fst (handleCanvasMouseMove True (Num 1) rayCastingContains example_paths
                       (Num 200, Num 200)
                       (snd (pointerMoves True (Num 1) rayCastingContains example_paths
                               [(Num 48, Num 48)] initialHoverState)))) = (1, 1)"
proof -
  have in48: "getAnnotationAtPoint rayCastingContains example_paths (Num 48) (Num 48)
                = Some (example_annotation ''x'')"
    using example_hit_inside [of 48 48] by (simp add: hitAt_def)
  have out: "getAnnotationAtPoint rayCastingContains example_paths (Num 200) (Num 200) = None"
    using example_hit_outside [of 200 200] by (simp add: hitAt_def)
  show ?thesis
    by (simp add: hitAt_def in48 out handleCanvasMouseMove_def handleAnnotationHover_def Let_def
          initialHoverState_def setups_def teardowns_def)
qed

text \<open>
  The two phases make up the handler. When a second pointer-move over the same
  annotation starts while the first is still awaiting, it reads the tracking
  state that the first has not written yet and performs the setup again: the
  suppression relies on each pointer-move being handled to its end before the
  next one starts.
\<close>

lemma handleCanvasMouseMove_phases:
  "handleCanvasMouseMove m dpr ipp paths q st
     = (case handleCanvasMouseMove_begin m dpr ipp paths q st of
          (acts, st1, pending) \<Rightarrow>
            (case handleCanvasMouseMove_finish m ipp paths q pending st1 of
               (acts', st2) \<Rightarrow> (acts @ acts', st2)))"
  by (simp add: handleCanvasMouseMove_def handleCanvasMouseMove_begin_def
        handleCanvasMouseMove_finish_def Let_def)

lemma interleaved_moves_repeat_the_setup:
  "hitAt ipp paths q = Some b \<Longrightarrow> hitAt ipp paths q' = Some b \<Longrightarrow>
   handleCanvasMouseMove_begin True dpr ipp paths q initialHoverState = (acts, st1, pending) \<Longrightarrow>
   setups acts = 1
   \<and> setups (fst (handleCanvasMouseMove_begin True dpr ipp paths q' st1)) = 1"
  by (auto simp: handleCanvasMouseMove_begin_def handleAnnotationHover_def hitAt_def Let_def
        initialHoverState_def setups_def)

end
